theory Spec2Isabelle
  imports Main "HOL-Library.Word"
begin

section \<open>Data model of ZooKeeperLoadBalancer.cpp\<close>

datatype Status = UNDEF | ONLINE | OFFLINE

text \<open>Coordination::Error, as far as the load balancer uses it.\<close>

datatype Error = ZCONNECTIONLOSS | ZBADARGUMENTS

text \<open>
  What the code can throw. \<open>ALL_CONNECTION_TRIES_FAILED\<close> is the DB::Exception with that
  error code; \<open>KeeperException\<close> carries its Coordination::Error and message;
  \<open>OUT_OF_BOUNDS\<close> stands for an access \<open>v[i]\<close> to a std::vector with
  \<open>i \<ge> v.size()\<close> (or a division by zero), which C++ leaves undefined.
\<close>

datatype exception =
    ALL_CONNECTION_TRIES_FAILED
  | KeeperException Error string
  | OUT_OF_BOUNDS

fun and_then :: "exception + 'a \<Rightarrow> ('a \<Rightarrow> exception + 'b) \<Rightarrow> exception + 'b" where
  "and_then (Inl e) f = Inl e"
| "and_then (Inr x) f = f x"

text \<open>Checked \<open>v[i]\<close> on a std::vector.\<close>

definition at :: "'a list \<Rightarrow> nat \<Rightarrow> exception + 'a" where
  "at v i = (if i < length v then Inr (v ! i) else Inl OUT_OF_BOUNDS)"

record ClientSettings =
  use_fallback_session_lifetime :: bool

text \<open>
  IClientsConnectionBalancer::EndpointInfo. The field \<open>id\<close> of the source is
  \<open>id'\<close> in both records, \<open>id\<close> being the identity function of HOL.
\<close>

record EndpointInfo =
  address :: string
  secure :: bool
  id' :: nat
  settings :: ClientSettings

text \<open>EndpointRegistry::Endpoint.\<close>

record Endpoint =
  address :: string
  secure :: bool
  id' :: nat
  status :: Status

type_synonym EndpointRegistry = "Endpoint list"

subsection \<open>class EndpointRegistry\<close>

definition addEndpoint :: "Endpoint \<Rightarrow> EndpointRegistry \<Rightarrow> nat \<times> EndpointRegistry" where
  "addEndpoint endpoint endpoints = (length endpoints, endpoints @ [endpoint])"

definition findEndpointById :: "EndpointRegistry \<Rightarrow> nat \<Rightarrow> exception + Endpoint" where
  "findEndpointById endpoints i = at endpoints i"

definition getEndpointsCount :: "EndpointRegistry \<Rightarrow> nat" where
  "getEndpointsCount endpoints = length endpoints"

definition markHostOffline :: "nat \<Rightarrow> EndpointRegistry \<Rightarrow> exception + EndpointRegistry" where
  "markHostOffline i endpoints =
     (if i < length endpoints
      then Inr (endpoints[i := (endpoints ! i)\<lparr>status := OFFLINE\<rparr>])
      else Inl OUT_OF_BOUNDS)"

definition markHostOnline :: "nat \<Rightarrow> EndpointRegistry \<Rightarrow> exception + EndpointRegistry" where
  "markHostOnline i endpoints =
     (if i < length endpoints
      then Inr (endpoints[i := (endpoints ! i)\<lparr>status := ONLINE\<rparr>])
      else Inl OUT_OF_BOUNDS)"

definition resetOfflineStatuses :: "EndpointRegistry \<Rightarrow> EndpointRegistry" where
  "resetOfflineStatuses endpoints =
     map (\<lambda>endpoint. if status endpoint = OFFLINE then endpoint\<lparr>status := UNDEF\<rparr> else endpoint)
       endpoints"

definition getRangeByStatus :: "EndpointRegistry \<Rightarrow> Status \<Rightarrow> nat list" where
  "getRangeByStatus endpoints st =
     map Endpoint.id' (filter (\<lambda>endpoint. status endpoint = st) endpoints)"

definition parseForSocketAddress :: "string \<Rightarrow> string \<times> bool" where
  "parseForSocketAddress raw_host =
     (let sec = (take (length ''secure://'') raw_host = ''secure://'')
      in (if sec then drop (length ''secure://'') raw_host else raw_host, sec))"

subsection \<open>class IBalancerWithEndpointStatuses\<close>

text \<open>The constructor: one endpoint per host, in order, \<open>id = i\<close>, status UNDEF.\<close>

definition IBalancerWithEndpointStatuses :: "string list \<Rightarrow> EndpointRegistry" where
  "IBalancerWithEndpointStatuses hosts =
     fold (\<lambda>i registry.
             (case parseForSocketAddress (hosts ! i) of
                (addr, sec) \<Rightarrow>
                  snd (addEndpoint
                    \<lparr>Endpoint.address = addr, secure = sec, id' = i, status = UNDEF\<rparr>
                    registry)))
       [0..<length hosts] []"

definition getAvailableEndpointsCount :: "EndpointRegistry \<Rightarrow> nat" where
  "getAvailableEndpointsCount registry =
     length (getRangeByStatus registry ONLINE) + length (getRangeByStatus registry UNDEF)"

definition asOptimalEndpoint :: "EndpointRegistry \<Rightarrow> nat \<Rightarrow> exception + EndpointInfo" where
  "asOptimalEndpoint registry i =
     and_then (findEndpointById registry i) (\<lambda>endpoint.
       Inr \<lparr>EndpointInfo.address = Endpoint.address endpoint,
            secure = Endpoint.secure endpoint,
            id' = i,
            settings = \<lparr>use_fallback_session_lifetime = False\<rparr>\<rparr>)"

definition asTemporaryEndpoint :: "EndpointRegistry \<Rightarrow> nat \<Rightarrow> exception + EndpointInfo" where
  "asTemporaryEndpoint registry i =
     and_then (findEndpointById registry i) (\<lambda>endpoint.
       Inr \<lparr>EndpointInfo.address = Endpoint.address endpoint,
            secure = Endpoint.secure endpoint,
            id' = i,
            settings = \<lparr>use_fallback_session_lifetime = True\<rparr>\<rparr>)"

text \<open>
  \<open>distribution(thread_local_rng)\<close> for a \<open>uniform_int_distribution\<close> over
  \<open>[0, range.size() - 1]\<close>, the vector \<open>range\<close> of the source being \<open>ids\<close>
  here. The generator's state is not part of the balancer, so the raw draw \<open>rnd\<close> is
  an argument and the index chosen is \<open>rnd mod range.size()\<close>, which covers every
  index of the range and nothing else. An empty range violates the \<open>chassert\<close> and
  is undefined.
\<close>

definition uniform_int_distribution :: "nat \<Rightarrow> nat list \<Rightarrow> exception + nat" where
  "uniform_int_distribution rnd ids =
     (if ids = [] then Inl OUT_OF_BOUNDS else Inr (rnd mod length ids))"

subsection \<open>class Random\<close>

definition Random_getHostFrom :: "nat \<Rightarrow> EndpointRegistry \<Rightarrow> nat list \<Rightarrow> exception + EndpointInfo" where
  "Random_getHostFrom rnd registry ids =
     and_then (uniform_int_distribution rnd ids) (\<lambda>chosen.
       and_then (at ids chosen) (asOptimalEndpoint registry))"

definition Random_getHostToConnect ::
  "nat \<Rightarrow> EndpointRegistry \<Rightarrow> (exception + EndpointInfo) \<times> EndpointRegistry" where
  "Random_getHostToConnect rnd registry =
     (let ids = getRangeByStatus registry ONLINE in
      if ids \<noteq> [] then (Random_getHostFrom rnd registry ids, registry)
      else
        let ids = getRangeByStatus registry UNDEF in
        if ids \<noteq> [] then (Random_getHostFrom rnd registry ids, registry)
        else (Inl ALL_CONNECTION_TRIES_FAILED, resetOfflineStatuses registry))"

definition Random_endpointsWorthChecking :: "nat option \<Rightarrow> exception + EndpointInfo list" where
  "Random_endpointsWorthChecking current_endpoint_id = Inr []"

definition Random_hasBetterHostToConnect :: "nat \<Rightarrow> exception + bool" where
  "Random_hasBetterHostToConnect current_endpoint_id = Inr False"

subsection \<open>class IBalancerWithPriorities\<close>

text \<open>\<open>std::numeric_limits<size_t>::max()\<close>; priorities are \<open>size_t\<close>.\<close>

definition size_t_max :: "64 word" where
  "size_t_max = - 1"

text \<open>
  \<open>return priorities[id] == *std::min(priorities.begin(), priorities.end());\<close>
  Here \<open>std::min\<close> is handed the two iterators, not the elements (that would be
  \<open>std::min_element\<close>): it yields its second argument only when
  \<open>end < begin\<close>, which never holds, so what is dereferenced is
  \<open>priorities.begin()\<close>, the priority of endpoint 0. On an empty vector that is
  \<open>*end\<close>, undefined.
\<close>

definition isOptimalEndpoint :: "64 word list \<Rightarrow> nat \<Rightarrow> exception + bool" where
  "isOptimalEndpoint priorities i =
     and_then (at priorities i) (\<lambda>p.
       and_then (at priorities 0) (\<lambda>begin_priority. Inr (p = begin_priority)))"

definition getHostWithSetting ::
  "EndpointRegistry \<Rightarrow> 64 word list \<Rightarrow> nat \<Rightarrow> exception + EndpointInfo" where
  "getHostWithSetting registry priorities i =
     and_then (isOptimalEndpoint priorities i) (\<lambda>optimal.
       if optimal then asOptimalEndpoint registry i else asTemporaryEndpoint registry i)"

text \<open>The \<open>for (size_t id : endpoints_index)\<close> loop of getMostPriority.\<close>

fun getMostPriority_loop ::
  "64 word list \<Rightarrow> nat list \<Rightarrow> 64 word \<Rightarrow> nat \<Rightarrow> exception + (64 word \<times> nat)" where
  "getMostPriority_loop priorities [] min_priority min_id = Inr (min_priority, min_id)"
| "getMostPriority_loop priorities (i # endpoints_index) min_priority min_id =
     (case at priorities i of
        Inl e \<Rightarrow> Inl e
      | Inr p \<Rightarrow>
          if min_priority > p
          then getMostPriority_loop priorities endpoints_index p i
          else getMostPriority_loop priorities endpoints_index min_priority min_id)"

definition getMostPriority ::
  "EndpointRegistry \<Rightarrow> 64 word list \<Rightarrow> Status \<Rightarrow> exception + nat option" where
  "getMostPriority registry priorities st =
     and_then
       (getMostPriority_loop priorities (getRangeByStatus registry st)
          size_t_max (getEndpointsCount registry))
       (\<lambda>(min_priority, min_id).
          if min_id = getEndpointsCount registry then Inr None else Inr (Some min_id))"

definition Priorities_getHostToConnect ::
  "EndpointRegistry \<Rightarrow> 64 word list \<Rightarrow> (exception + EndpointInfo) \<times> EndpointRegistry" where
  "Priorities_getHostToConnect registry priorities =
     (case getMostPriority registry priorities ONLINE of
        Inl e \<Rightarrow> (Inl e, registry)
      | Inr (Some i) \<Rightarrow> (getHostWithSetting registry priorities i, registry)
      | Inr None \<Rightarrow>
          (case getMostPriority registry priorities UNDEF of
             Inl e \<Rightarrow> (Inl e, registry)
           | Inr (Some i) \<Rightarrow> (getHostWithSetting registry priorities i, registry)
           | Inr None \<Rightarrow> (Inl ALL_CONNECTION_TRIES_FAILED, resetOfflineStatuses registry)))"

text \<open>
  One \<open>for\<close> loop of endpointsWorthChecking, pushing onto \<open>endpoints\<close>. The
  condition is \<open>current_id_set || priorities[endpoint] < priorities[current]\<close>:
  \<open>||\<close> short-circuits, so the priorities are read exactly when no current id was
  given.
\<close>

fun endpointsWorthChecking_loop ::
  "EndpointRegistry \<Rightarrow> 64 word list \<Rightarrow> bool \<Rightarrow> nat \<Rightarrow> nat list \<Rightarrow> EndpointInfo list
     \<Rightarrow> exception + EndpointInfo list" where
  "endpointsWorthChecking_loop registry priorities current_id_set current [] endpoints =
     Inr endpoints"
| "endpointsWorthChecking_loop registry priorities current_id_set current (endpoint # rest) endpoints =
     (case (if current_id_set then Inr True
            else and_then (at priorities endpoint) (\<lambda>p.
                   and_then (at priorities current) (\<lambda>q. Inr (p < q)))) of
        Inl e \<Rightarrow> Inl e
      | Inr worth \<Rightarrow>
          if worth
          then (case getHostWithSetting registry priorities endpoint of
                  Inl e \<Rightarrow> Inl e
                | Inr info \<Rightarrow>
                    endpointsWorthChecking_loop registry priorities current_id_set current rest
                      (endpoints @ [info]))
          else endpointsWorthChecking_loop registry priorities current_id_set current rest
                 endpoints)"

definition Priorities_endpointsWorthChecking ::
  "EndpointRegistry \<Rightarrow> 64 word list \<Rightarrow> nat option \<Rightarrow> exception + EndpointInfo list" where
  "Priorities_endpointsWorthChecking registry priorities current_endpoint_id =
     (let current = (case current_endpoint_id of
                       None \<Rightarrow> getEndpointsCount registry | Some c \<Rightarrow> c);
          current_id_set = (current_endpoint_id \<noteq> None)
      in and_then
           (endpointsWorthChecking_loop registry priorities current_id_set current
              (getRangeByStatus registry UNDEF) [])
           (endpointsWorthChecking_loop registry priorities current_id_set current
              (getRangeByStatus registry OFFLINE)))"

definition Priorities_hasBetterHostToConnect ::
  "EndpointRegistry \<Rightarrow> 64 word list \<Rightarrow> nat \<Rightarrow> exception + bool" where
  "Priorities_hasBetterHostToConnect registry priorities current_endpoint_id =
     and_then (getMostPriority registry priorities ONLINE) (\<lambda>i.
       Inr (i \<noteq> None \<and> i \<noteq> Some current_endpoint_id))"

definition priorityAsInOrer :: "Endpoint \<Rightarrow> 64 word" where
  "priorityAsInOrer endpoint = of_nat (Endpoint.id' endpoint)"

subsection \<open>class RoundRobin\<close>

definition selectEndpoint ::
  "EndpointRegistry \<Rightarrow> nat \<Rightarrow> nat \<Rightarrow> (exception + EndpointInfo) \<times> EndpointRegistry \<times> nat" where
  "selectEndpoint registry round_robin_id i =
     (if getEndpointsCount registry = 0 then (Inl OUT_OF_BOUNDS, registry, round_robin_id)
      else (asOptimalEndpoint registry i, registry, (i + 1) mod getEndpointsCount registry))"

definition RoundRobin_getHostToConnect ::
  "EndpointRegistry \<Rightarrow> nat \<Rightarrow> (exception + EndpointInfo) \<times> EndpointRegistry \<times> nat" where
  "RoundRobin_getHostToConnect registry round_robin_id =
     (case findEndpointById registry round_robin_id of
        Inl e \<Rightarrow> (Inl e, registry, round_robin_id)
      | Inr cursor \<Rightarrow>
          let round_robin_status = status cursor in
          if round_robin_status = ONLINE then selectEndpoint registry round_robin_id round_robin_id
          else
            let online_endpoints = getRangeByStatus registry ONLINE in
            if online_endpoints \<noteq> []
            then selectEndpoint registry round_robin_id (online_endpoints ! 0)
            else if round_robin_status = UNDEF
            then (asOptimalEndpoint registry round_robin_id, registry, round_robin_id)
            else
              let undef_endpoints = getRangeByStatus registry UNDEF in
              if undef_endpoints \<noteq> []
              then selectEndpoint registry round_robin_id (undef_endpoints ! 0)
              else (Inl ALL_CONNECTION_TRIES_FAILED, resetOfflineStatuses registry,
                    round_robin_id))"

subsection \<open>class FirstOrRandom\<close>

definition FirstOrRandom_getHostFrom ::
  "nat \<Rightarrow> EndpointRegistry \<Rightarrow> nat list \<Rightarrow> exception + EndpointInfo" where
  "FirstOrRandom_getHostFrom rnd registry ids =
     and_then (uniform_int_distribution rnd ids) (\<lambda>chosen.
       and_then (at ids chosen) (asTemporaryEndpoint registry))"

definition FirstOrRandom_getHostToConnect ::
  "nat \<Rightarrow> EndpointRegistry \<Rightarrow> (exception + EndpointInfo) \<times> EndpointRegistry" where
  "FirstOrRandom_getHostToConnect rnd registry =
     (case findEndpointById registry 0 of
        Inl e \<Rightarrow> (Inl e, registry)
      | Inr first_endpoint \<Rightarrow>
          let first_status = status first_endpoint in
          if first_status = ONLINE then (asOptimalEndpoint registry 0, registry)
          else
            let ids = getRangeByStatus registry ONLINE in
            if ids \<noteq> [] then (FirstOrRandom_getHostFrom rnd registry ids, registry)
            else if first_status = UNDEF then (asOptimalEndpoint registry 0, registry)
            else
              let ids = getRangeByStatus registry UNDEF in
              if ids \<noteq> [] then (FirstOrRandom_getHostFrom rnd registry ids, registry)
              else (Inl ALL_CONNECTION_TRIES_FAILED, resetOfflineStatuses registry))"

definition FirstOrRandom_endpointsWorthChecking ::
  "EndpointRegistry \<Rightarrow> nat option \<Rightarrow> exception + EndpointInfo list" where
  "FirstOrRandom_endpointsWorthChecking registry current_endpoint_id =
     (if current_endpoint_id = Some 0 then Inr []
      else and_then (asOptimalEndpoint registry 0) (\<lambda>info. Inr [info]))"

definition FirstOrRandom_hasBetterHostToConnect :: "EndpointRegistry \<Rightarrow> nat \<Rightarrow> exception + bool" where
  "FirstOrRandom_hasBetterHostToConnect registry current_endpoint_id =
     and_then (findEndpointById registry 0) (\<lambda>first_endpoint.
       Inr (status first_endpoint = ONLINE \<and> current_endpoint_id \<noteq> 0))"

section \<open>The balancer behind IClientsConnectionBalancer\<close>

text \<open>
  The four classes as one tagged state: the registry, and what the subclass adds (the
  priority vector, the round-robin cursor). Virtual dispatch is the case split.
\<close>

datatype Balancer =
    Random EndpointRegistry
  | IBalancerWithPriorities EndpointRegistry "64 word list"
  | RoundRobin EndpointRegistry nat
  | FirstOrRandom EndpointRegistry

fun registry_of :: "Balancer \<Rightarrow> EndpointRegistry" where
  "registry_of (Random registry) = registry"
| "registry_of (IBalancerWithPriorities registry priorities) = registry"
| "registry_of (RoundRobin registry round_robin_id) = registry"
| "registry_of (FirstOrRandom registry) = registry"

fun set_registry :: "Balancer \<Rightarrow> EndpointRegistry \<Rightarrow> Balancer" where
  "set_registry (Random registry) r = Random r"
| "set_registry (IBalancerWithPriorities registry priorities) r = IBalancerWithPriorities r priorities"
| "set_registry (RoundRobin registry round_robin_id) r = RoundRobin r round_robin_id"
| "set_registry (FirstOrRandom registry) r = FirstOrRandom r"

fun getHostToConnect :: "nat \<Rightarrow> Balancer \<Rightarrow> (exception + EndpointInfo) \<times> Balancer" where
  "getHostToConnect rnd (Random registry) =
     (case Random_getHostToConnect rnd registry of (res, r) \<Rightarrow> (res, Random r))"
| "getHostToConnect rnd (IBalancerWithPriorities registry priorities) =
     (case Priorities_getHostToConnect registry priorities of
        (res, r) \<Rightarrow> (res, IBalancerWithPriorities r priorities))"
| "getHostToConnect rnd (RoundRobin registry round_robin_id) =
     (case RoundRobin_getHostToConnect registry round_robin_id of
        (res, r, c) \<Rightarrow> (res, RoundRobin r c))"
| "getHostToConnect rnd (FirstOrRandom registry) =
     (case FirstOrRandom_getHostToConnect rnd registry of (res, r) \<Rightarrow> (res, FirstOrRandom r))"

definition balancer_markHostOffline :: "nat \<Rightarrow> Balancer \<Rightarrow> exception + Balancer" where
  "balancer_markHostOffline i balancer =
     and_then (markHostOffline i (registry_of balancer)) (\<lambda>r. Inr (set_registry balancer r))"

definition balancer_markHostOnline :: "nat \<Rightarrow> Balancer \<Rightarrow> exception + Balancer" where
  "balancer_markHostOnline i balancer =
     and_then (markHostOnline i (registry_of balancer)) (\<lambda>r. Inr (set_registry balancer r))"

definition balancer_resetOfflineStatuses :: "Balancer \<Rightarrow> Balancer" where
  "balancer_resetOfflineStatuses balancer =
     set_registry balancer (resetOfflineStatuses (registry_of balancer))"

fun endpointsWorthChecking :: "Balancer \<Rightarrow> nat option \<Rightarrow> exception + EndpointInfo list" where
  "endpointsWorthChecking (Random registry) current_endpoint_id =
     Random_endpointsWorthChecking current_endpoint_id"
| "endpointsWorthChecking (IBalancerWithPriorities registry priorities) current_endpoint_id =
     Priorities_endpointsWorthChecking registry priorities current_endpoint_id"
| "endpointsWorthChecking (RoundRobin registry round_robin_id) current_endpoint_id = Inr []"
| "endpointsWorthChecking (FirstOrRandom registry) current_endpoint_id =
     FirstOrRandom_endpointsWorthChecking registry current_endpoint_id"

fun hasBetterHostToConnect :: "Balancer \<Rightarrow> nat \<Rightarrow> exception + bool" where
  "hasBetterHostToConnect (Random registry) current_endpoint_id =
     Random_hasBetterHostToConnect current_endpoint_id"
| "hasBetterHostToConnect (IBalancerWithPriorities registry priorities) current_endpoint_id =
     Priorities_hasBetterHostToConnect registry priorities current_endpoint_id"
| "hasBetterHostToConnect (RoundRobin registry round_robin_id) current_endpoint_id = Inr False"
| "hasBetterHostToConnect (FirstOrRandom registry) current_endpoint_id =
     FirstOrRandom_hasBetterHostToConnect registry current_endpoint_id"

text \<open>
  The constructor \<open>IBalancerWithPriorities(hosts, priority_calculator)\<close>: the registry
  of the base class, then one priority per endpoint, in id order.
\<close>

definition new_IBalancerWithPriorities :: "string list \<Rightarrow> (Endpoint \<Rightarrow> 64 word) \<Rightarrow> Balancer" where
  "new_IBalancerWithPriorities hosts priority_calculator =
     (let registry = IBalancerWithEndpointStatuses hosts
      in IBalancerWithPriorities registry
           (map (\<lambda>i. priority_calculator (registry ! i)) [0..<getEndpointsCount registry]))"

datatype LoadBalancing =
    RANDOM | NEAREST_HOSTNAME | HOSTNAME_LEVENSHTEIN_DISTANCE | IN_ORDER | FIRST_OR_RANDOM
  | ROUND_ROBIN

text \<open>
  \<open>Coordination::getHostNamePrefixDistance\<close>,
  \<open>Coordination::getHostNameLevenshteinDistance\<close> and \<open>getFQDNOrHostName\<close> are
  declared outside this file. They are parameters here: \<open>prefix_distance a\<close> is
  \<open>getHostNamePrefixDistance(getFQDNOrHostName(), a)\<close> and
  \<open>levenshtein_distance a\<close> is
  \<open>getHostNameLevenshteinDistance(getFQDNOrHostName(), a)\<close>, both \<open>size_t\<close>.
\<close>

fun getConnectionBalancer ::
  "(string \<Rightarrow> 64 word) \<Rightarrow> (string \<Rightarrow> 64 word) \<Rightarrow> LoadBalancing \<Rightarrow> string list \<Rightarrow> Balancer" where
  "getConnectionBalancer prefix_distance levenshtein_distance RANDOM hosts =
     Random (IBalancerWithEndpointStatuses hosts)"
| "getConnectionBalancer prefix_distance levenshtein_distance NEAREST_HOSTNAME hosts =
     new_IBalancerWithPriorities hosts (\<lambda>endpoint. prefix_distance (Endpoint.address endpoint))"
| "getConnectionBalancer prefix_distance levenshtein_distance HOSTNAME_LEVENSHTEIN_DISTANCE hosts =
     new_IBalancerWithPriorities hosts
       (\<lambda>endpoint. levenshtein_distance (Endpoint.address endpoint))"
| "getConnectionBalancer prefix_distance levenshtein_distance IN_ORDER hosts =
     new_IBalancerWithPriorities hosts priorityAsInOrer"
| "getConnectionBalancer prefix_distance levenshtein_distance FIRST_OR_RANDOM hosts =
     FirstOrRandom (IBalancerWithEndpointStatuses hosts)"
| "getConnectionBalancer prefix_distance levenshtein_distance ROUND_ROBIN hosts =
     RoundRobin (IBalancerWithEndpointStatuses hosts) 0"

section \<open>ZooKeeperLoadBalancer::init\<close>

text \<open>
  init refuses an empty host list and otherwise stores the balancer that
  getConnectionBalancer builds for the configured policy.
\<close>

definition init ::
  "(string \<Rightarrow> 64 word) \<Rightarrow> (string \<Rightarrow> 64 word) \<Rightarrow> LoadBalancing \<Rightarrow> string list
     \<Rightarrow> exception + Balancer" where
  "init prefix_distance levenshtein_distance load_balancing hosts =
     (if hosts = []
      then Inl (KeeperException ZBADARGUMENTS ''No hosts specified in ZooKeeperArgs.'')
      else Inr (getConnectionBalancer prefix_distance levenshtein_distance load_balancing hosts))"

section \<open>ZooKeeperLoadBalancer::createClient\<close>

text \<open>
  What the outside world does in one pass of the \<open>while (true)\<close> loop: the random
  draw, what constructing the \<open>Poco::Net::SocketAddress\<close> in
  isKeeperHostDNSAvailable does, and whether building the
  \<open>Coordination::ZooKeeper\<close> session succeeds or throws a DB::Exception.
\<close>

datatype dns_outcome = Resolved | HostNotFoundException | DNSException

record attempt =
  draw :: nat
  dns :: dns_outcome
  session_ok :: bool

text \<open>Returns the result and the new value of the reference \<open>dns_error_occurred\<close>.\<close>

definition isKeeperHostDNSAvailable :: "dns_outcome \<Rightarrow> bool \<Rightarrow> bool \<times> bool" where
  "isKeeperHostDNSAvailable outcome dns_error_occurred =
     (case outcome of
        Resolved \<Rightarrow> (True, dns_error_occurred)
      | HostNotFoundException \<Rightarrow> (False, dns_error_occurred)
      | DNSException \<Rightarrow> (False, True))"

definition throwWhenNoHostAvailable :: "bool \<Rightarrow> exception" where
  "throwWhenNoHostAvailable dns_error_occurred =
     (if dns_error_occurred
      then KeeperException ZCONNECTIONLOSS
             ''Cannot resolve any of provided ZooKeeper hosts due to DNS error''
      else KeeperException ZCONNECTIONLOSS ''Cannot use any of provided ZooKeeper nodes'')"

text \<open>The session returned: its node, and whether setClientSessionDeadline was called.\<close>

record Client =
  node_address :: string
  original_index :: "8 word"
  node_secure :: bool
  fallback_deadline_set :: bool

text \<open>
  The loop has no bound of its own. It runs on the list of what each pass meets and
  yields \<open>None\<close> when the list ends before the loop has returned or thrown. The call
  of getHostToConnect stands outside the \<open>try\<close> block, so what it throws leaves
  createClient as it is; the call of throwWhenNoHostAvailable after the loop is
  commented out in the source.
\<close>

fun createClient_loop ::
  "attempt list \<Rightarrow> Balancer \<Rightarrow> bool \<Rightarrow> (exception + Client) option \<times> Balancer" where
  "createClient_loop [] balancer dns_error_occurred = (None, balancer)"
| "createClient_loop (a # rest) balancer dns_error_occurred =
     (case getHostToConnect (draw a) balancer of
        (Inl e, balancer1) \<Rightarrow> (Some (Inl e), balancer1)
      | (Inr endpoint, balancer1) \<Rightarrow>
          (case isKeeperHostDNSAvailable (dns a) dns_error_occurred of
             (available, dns_error_occurred1) \<Rightarrow>
               if \<not> available
               then (case balancer_markHostOffline (EndpointInfo.id' endpoint) balancer1 of
                       Inl e \<Rightarrow> (Some (Inl e), balancer1)
                     | Inr balancer2 \<Rightarrow> createClient_loop rest balancer2 dns_error_occurred1)
               else if session_ok a
               then (case balancer_markHostOnline (EndpointInfo.id' endpoint) balancer1 of
                       Inl e \<Rightarrow> (Some (Inl e), balancer1)
                     | Inr balancer2 \<Rightarrow>
                         (case hasBetterHostToConnect balancer2 (EndpointInfo.id' endpoint) of
                            Inl e \<Rightarrow> (Some (Inl e), balancer2)
                          | Inr better \<Rightarrow>
                              if better
                              then createClient_loop rest balancer2 dns_error_occurred1
                              else (Some (Inr
                                      \<lparr>node_address = EndpointInfo.address endpoint,
                                       original_index = of_nat (EndpointInfo.id' endpoint),
                                       node_secure = EndpointInfo.secure endpoint,
                                       fallback_deadline_set =
                                         use_fallback_session_lifetime (settings endpoint)\<rparr>),
                                    balancer2)))
               else (case balancer_markHostOffline (EndpointInfo.id' endpoint) balancer1 of
                       Inl e \<Rightarrow> (Some (Inl e), balancer1)
                     | Inr balancer2 \<Rightarrow> createClient_loop rest balancer2 dns_error_occurred1)))"

definition createClient ::
  "attempt list \<Rightarrow> Balancer \<Rightarrow> (exception + Client) option \<times> Balancer" where
  "createClient attempts balancer = createClient_loop attempts balancer False"

section \<open>Balancers as the code builds and updates them\<close>

text \<open>
  Invariant 1 of the data model: \<open>endpoint.id\<close> is the endpoint's index in the
  registry. The constructor establishes it and no operation changes an id.
\<close>

definition ids_dense :: "EndpointRegistry \<Rightarrow> bool" where
  "ids_dense registry = (map Endpoint.id' registry = [0..<length registry])"

fun priorities_of :: "Balancer \<Rightarrow> 64 word list" where
  "priorities_of (IBalancerWithPriorities registry priorities) = priorities"
| "priorities_of (Random registry) = []"
| "priorities_of (RoundRobin registry round_robin_id) = []"
| "priorities_of (FirstOrRandom registry) = []"

text \<open>
  What holds of every balancer that getConnectionBalancer builds from a non-empty host
  list (ZooKeeperLoadBalancer::init refuses an empty one) and that the interface then
  updates: dense ids, one priority per endpoint, the cursor inside the registry. No
  priority is \<open>size_t_max\<close>: the three calculators yield an id or a distance between
  two host names, and getMostPriority uses \<open>size_t_max\<close> as its "nothing found yet"
  value.
\<close>

fun well_formed :: "Balancer \<Rightarrow> bool" where
  "well_formed (Random registry) = (registry \<noteq> [] \<and> ids_dense registry)"
| "well_formed (IBalancerWithPriorities registry priorities) =
     (registry \<noteq> [] \<and> ids_dense registry \<and> length priorities = length registry \<and>
      size_t_max \<notin> set priorities)"
| "well_formed (RoundRobin registry round_robin_id) =
     (registry \<noteq> [] \<and> ids_dense registry \<and> round_robin_id < length registry)"
| "well_formed (FirstOrRandom registry) = (registry \<noteq> [] \<and> ids_dense registry)"

text \<open>The calls a client of IClientsConnectionBalancer can make that change the balancer.\<close>

datatype update =
    MarkHostOnline nat
  | MarkHostOffline nat
  | ResetOfflineStatuses
  | GetHostToConnect nat

fun apply_update :: "update \<Rightarrow> Balancer \<Rightarrow> exception + Balancer" where
  "apply_update (MarkHostOnline i) balancer = balancer_markHostOnline i balancer"
| "apply_update (MarkHostOffline i) balancer = balancer_markHostOffline i balancer"
| "apply_update ResetOfflineStatuses balancer = Inr (balancer_resetOfflineStatuses balancer)"
| "apply_update (GetHostToConnect rnd) balancer =
     (case getHostToConnect rnd balancer of
        (Inl OUT_OF_BOUNDS, balancer1) \<Rightarrow> Inl OUT_OF_BOUNDS
      | (res, balancer1) \<Rightarrow> Inr balancer1)"

fun apply_updates :: "update list \<Rightarrow> Balancer \<Rightarrow> exception + Balancer" where
  "apply_updates [] balancer = Inr balancer"
| "apply_updates (u # us) balancer =
     (case apply_update u balancer of
        Inl e \<Rightarrow> Inl e
      | Inr balancer1 \<Rightarrow> apply_updates us balancer1)"

text \<open>
  \<open>n\<close> rounds of \<open>getHostToConnect(); markHostOnline(result.id)\<close>, collecting the
  ids selected, in order. The draw passed is 0: the round-robin policy, for which this
  is used, draws nothing.
\<close>

fun select_and_mark_online :: "nat \<Rightarrow> Balancer \<Rightarrow> exception + nat list" where
  "select_and_mark_online 0 balancer = Inr []"
| "select_and_mark_online (Suc n) balancer =
     (case getHostToConnect 0 balancer of
        (Inl e, balancer1) \<Rightarrow> Inl e
      | (Inr info, balancer1) \<Rightarrow>
          (case balancer_markHostOnline (EndpointInfo.id' info) balancer1 of
             Inl e \<Rightarrow> Inl e
           | Inr balancer2 \<Rightarrow>
               (case select_and_mark_online n balancer2 of
                  Inl e \<Rightarrow> Inl e
                | Inr ids \<Rightarrow> Inr (EndpointInfo.id' info # ids))))"

text \<open>
  The EndpointInfo of endpoint \<open>i\<close>: what asOptimalEndpoint builds (fallback
  False) and what asTemporaryEndpoint builds (fallback True) when \<open>i\<close> is in the registry.
\<close>

definition endpoint_info :: "EndpointRegistry \<Rightarrow> nat \<Rightarrow> bool \<Rightarrow> EndpointInfo" where
  "endpoint_info registry i fallback =
     \<lparr>EndpointInfo.address = Endpoint.address (registry ! i),
      secure = Endpoint.secure (registry ! i),
      id' = i,
      settings = \<lparr>use_fallback_session_lifetime = fallback\<rparr>\<rparr>"

text \<open>
  The endpoints the priority policy chooses among: the ids whose status is ONLINE, or,
  when no endpoint is ONLINE, the ids whose status is UNDEF.
\<close>

definition candidates :: "EndpointRegistry \<Rightarrow> nat set" where
  "candidates registry =
     (if ONLINE \<in> status ` set registry
      then set (filter (\<lambda>i. status (registry ! i) = ONLINE) [0..<length registry])
      else set (filter (\<lambda>i. status (registry ! i) = UNDEF) [0..<length registry]))"

section \<open>Properties of the registry\<close>

lemma length_resetOfflineStatuses [simp]:
  "length (resetOfflineStatuses endpoints) = length endpoints"
  by (simp add: resetOfflineStatuses_def)

lemma nth_resetOfflineStatuses:
  "i < length endpoints \<Longrightarrow>
   resetOfflineStatuses endpoints ! i =
     (if status (endpoints ! i) = OFFLINE then (endpoints ! i)\<lparr>status := UNDEF\<rparr>
      else endpoints ! i)"
  by (simp add: resetOfflineStatuses_def)

text \<open>
  C8: resetOfflineStatuses keeps the number of endpoints, turns every OFFLINE endpoint
  into the same endpoint with status UNDEF and leaves every ONLINE and UNDEF endpoint as
  it is; and for every id of the registry, markHostOffline(id) succeeds and, after
  resetOfflineStatuses, the endpoint found under that id is the old one with status
  UNDEF.
\<close>

theorem resetOfflineStatuses_spec:
  "length (resetOfflineStatuses endpoints) = length endpoints \<and>
   (\<forall>i<length endpoints.
      resetOfflineStatuses endpoints ! i =
        (if status (endpoints ! i) = OFFLINE then (endpoints ! i)\<lparr>status := UNDEF\<rparr>
         else endpoints ! i)) \<and>
   (\<forall>i<length endpoints.
      \<exists>marked. markHostOffline i endpoints = Inr marked \<and>
        findEndpointById (resetOfflineStatuses marked) i =
          Inr ((endpoints ! i)\<lparr>status := UNDEF\<rparr>))"
  by (simp add: nth_resetOfflineStatuses markHostOffline_def findEndpointById_def at_def)

theorem resetOfflineStatuses_spec_witness:
  "resetOfflineStatuses
     [\<lparr>Endpoint.address = ''a'', secure = False, id' = 0, status = OFFLINE\<rparr>,
      \<lparr>Endpoint.address = ''b'', secure = True, id' = 1, status = ONLINE\<rparr>] ! 0 =
     \<lparr>Endpoint.address = ''a'', secure = False, id' = 0, status = UNDEF\<rparr> \<and>
   resetOfflineStatuses
     [\<lparr>Endpoint.address = ''a'', secure = False, id' = 0, status = OFFLINE\<rparr>,
      \<lparr>Endpoint.address = ''b'', secure = True, id' = 1, status = ONLINE\<rparr>] ! 1 =
     \<lparr>Endpoint.address = ''b'', secure = True, id' = 1, status = ONLINE\<rparr> \<and>
   (\<exists>marked.
      markHostOffline 1
        [\<lparr>Endpoint.address = ''a'', secure = False, id' = 0, status = OFFLINE\<rparr>,
         \<lparr>Endpoint.address = ''b'', secure = True, id' = 1, status = ONLINE\<rparr>] = Inr marked \<and>
      findEndpointById (resetOfflineStatuses marked) 1 =
        Inr \<lparr>Endpoint.address = ''b'', secure = True, id' = 1, status = UNDEF\<rparr>)"
proof -
  let ?es = "[\<lparr>Endpoint.address = ''a'', secure = False, id' = 0, status = OFFLINE\<rparr>,
              \<lparr>Endpoint.address = ''b'', secure = True, id' = 1, status = ONLINE\<rparr>]"
  note spec = resetOfflineStatuses_spec [of ?es]
  from spec have nth: "\<And>i. i < length ?es \<Longrightarrow>
      resetOfflineStatuses ?es ! i =
        (if status (?es ! i) = OFFLINE then (?es ! i)\<lparr>status := UNDEF\<rparr> else ?es ! i)"
    by blast
  from spec have mark: "\<And>i. i < length ?es \<Longrightarrow>
      \<exists>marked. markHostOffline i ?es = Inr marked \<and>
        findEndpointById (resetOfflineStatuses marked) i = Inr ((?es ! i)\<lparr>status := UNDEF\<rparr>)"
    by blast
  have "resetOfflineStatuses ?es ! 0 =
          \<lparr>Endpoint.address = ''a'', secure = False, id' = 0, status = UNDEF\<rparr>"
    using nth [of 0] by simp
  moreover have "resetOfflineStatuses ?es ! 1 =
          \<lparr>Endpoint.address = ''b'', secure = True, id' = 1, status = ONLINE\<rparr>"
    using nth [of 1] by simp
  moreover have "\<exists>marked. markHostOffline 1 ?es = Inr marked \<and>
      findEndpointById (resetOfflineStatuses marked) 1 =
        Inr \<lparr>Endpoint.address = ''b'', secure = True, id' = 1, status = UNDEF\<rparr>"
    using mark [of 1] by simp
  ultimately show ?thesis by blast
qed

subsection \<open>Dense ids\<close>

lemma fold_push_back:
  "fold (\<lambda>i acc. acc @ [g i]) xs acc = acc @ map g xs"
  by (induction xs arbitrary: acc) simp_all

lemma IBalancerWithEndpointStatuses_map:
  "IBalancerWithEndpointStatuses hosts =
     map (\<lambda>i. \<lparr>Endpoint.address = fst (parseForSocketAddress (hosts ! i)),
               secure = snd (parseForSocketAddress (hosts ! i)), id' = i, status = UNDEF\<rparr>)
       [0..<length hosts]"
proof -
  have "(\<lambda>i registry.
             (case parseForSocketAddress (hosts ! i) of
                (addr, sec) \<Rightarrow>
                  snd (addEndpoint
                    \<lparr>Endpoint.address = addr, secure = sec, id' = i, status = UNDEF\<rparr>
                    registry)))
      = (\<lambda>i acc. acc @ [\<lparr>Endpoint.address = fst (parseForSocketAddress (hosts ! i)),
               secure = snd (parseForSocketAddress (hosts ! i)), id' = i, status = UNDEF\<rparr>])"
    by (intro ext) (simp add: addEndpoint_def split: prod.splits)
  then show ?thesis
    by (simp add: IBalancerWithEndpointStatuses_def fold_push_back)
qed

lemma length_IBalancerWithEndpointStatuses [simp]:
  "length (IBalancerWithEndpointStatuses hosts) = length hosts"
  by (simp add: IBalancerWithEndpointStatuses_map)

lemma ids_dense_IBalancerWithEndpointStatuses:
  "ids_dense (IBalancerWithEndpointStatuses hosts)"
  by (simp add: ids_dense_def IBalancerWithEndpointStatuses_map comp_def)

lemma ids_dense_nth: "ids_dense registry \<Longrightarrow> i < length registry \<Longrightarrow> Endpoint.id' (registry ! i) = i"
proof -
  assume d: "ids_dense registry" and i: "i < length registry"
  have "Endpoint.id' (registry ! i) = map Endpoint.id' registry ! i" using i by simp
  also have "\<dots> = [0..<length registry] ! i" using d by (simp add: ids_dense_def)
  also have "\<dots> = i" using i by simp
  finally show ?thesis .
qed

lemma ids_dense_update:
  assumes "ids_dense registry" "i < length registry"
  shows "ids_dense (registry[i := (registry ! i)\<lparr>status := s\<rparr>])"
proof -
  have "map Endpoint.id' (registry[i := (registry ! i)\<lparr>status := s\<rparr>]) =
        (map Endpoint.id' registry)[i := Endpoint.id' (registry ! i)]"
    by (simp add: map_update)
  also have "\<dots> = map Endpoint.id' registry"
    using assms(2) by (metis list_update_id nth_map)
  finally show ?thesis using assms(1) by (simp add: ids_dense_def)
qed

lemma ids_dense_resetOfflineStatuses:
  "ids_dense registry \<Longrightarrow> ids_dense (resetOfflineStatuses registry)"
proof -
  assume d: "ids_dense registry"
  have "map Endpoint.id' (resetOfflineStatuses registry) = map Endpoint.id' registry"
    by (simp add: resetOfflineStatuses_def)
  with d show ?thesis by (simp add: ids_dense_def)
qed

lemma getRangeByStatus_dense:
  assumes "ids_dense registry"
  shows "getRangeByStatus registry st =
           filter (\<lambda>i. status (registry ! i) = st) [0..<length registry]"
proof -
  have nth_id: "registry ! Endpoint.id' e = e" if "e \<in> set registry" for e
  proof -
    from that obtain k where k: "k < length registry" "registry ! k = e"
      by (auto simp: in_set_conv_nth)
    with assms show ?thesis using ids_dense_nth by fastforce
  qed
  have "filter (\<lambda>i. status (registry ! i) = st) [0..<length registry] =
        filter (\<lambda>i. status (registry ! i) = st) (map Endpoint.id' registry)"
    using assms by (simp add: ids_dense_def)
  also have "\<dots> = map Endpoint.id'
                  (filter (\<lambda>e. status (registry ! Endpoint.id' e) = st) registry)"
    by (simp add: filter_map comp_def)
  also have "filter (\<lambda>e. status (registry ! Endpoint.id' e) = st) registry =
             filter (\<lambda>e. status e = st) registry"
    by (rule filter_cong) (simp_all add: nth_id)
  finally show ?thesis by (simp add: getRangeByStatus_def)
qed

lemma set_getRangeByStatus:
  "ids_dense registry \<Longrightarrow>
   (i \<in> set (getRangeByStatus registry st)) = (i < length registry \<and> status (registry ! i) = st)"
  by (auto simp: getRangeByStatus_dense)

lemma sorted_getRangeByStatus:
  "ids_dense registry \<Longrightarrow> sorted_wrt (<) (getRangeByStatus registry st)"
  by (simp add: getRangeByStatus_dense sorted_wrt_filter)

lemma getRangeByStatus_empty:
  "ids_dense registry \<Longrightarrow>
   (getRangeByStatus registry st = []) = (\<forall>i<length registry. status (registry ! i) \<noteq> st)"
  by (auto simp: getRangeByStatus_dense filter_empty_conv)

subsection \<open>What each policy selects\<close>

lemma asOptimalEndpoint_eq:
  "i < length registry \<Longrightarrow> asOptimalEndpoint registry i = Inr (endpoint_info registry i False)"
  by (simp add: asOptimalEndpoint_def findEndpointById_def at_def endpoint_info_def)

lemma asTemporaryEndpoint_eq:
  "i < length registry \<Longrightarrow> asTemporaryEndpoint registry i = Inr (endpoint_info registry i True)"
  by (simp add: asTemporaryEndpoint_def findEndpointById_def at_def endpoint_info_def)

lemma getRangeByStatus_Nil:
  "(getRangeByStatus registry st = []) = (\<forall>e\<in>set registry. status e \<noteq> st)"
  by (simp add: getRangeByStatus_def filter_empty_conv)

lemma all_offline_iff:
  "(\<forall>e\<in>set registry. status e = OFFLINE) =
   (getRangeByStatus registry ONLINE = [] \<and> getRangeByStatus registry UNDEF = [])"
proof -
  have "\<And>s. (s = OFFLINE) = (s \<noteq> ONLINE \<and> s \<noteq> UNDEF)"
    by (case_tac s) simp_all
  then show ?thesis by (auto simp: getRangeByStatus_Nil)
qed

lemma drawn_in_range:
  assumes "ids_dense registry" "getRangeByStatus registry st \<noteq> []"
  shows "getRangeByStatus registry st ! (rnd mod length (getRangeByStatus registry st)) < length registry"
    and "status (registry ! (getRangeByStatus registry st ! (rnd mod length (getRangeByStatus registry st)))) = st"
proof -
  let ?ids = "getRangeByStatus registry st"
  have "?ids ! (rnd mod length ?ids) \<in> set ?ids"
    using assms(2) by simp
  then show "?ids ! (rnd mod length ?ids) < length registry"
    and "status (registry ! (?ids ! (rnd mod length ?ids))) = st"
    using assms(1) by (simp_all add: set_getRangeByStatus)
qed

lemma first_in_range:
  assumes "ids_dense registry" "getRangeByStatus registry st \<noteq> []"
  shows "getRangeByStatus registry st ! 0 < length registry"
    and "status (registry ! (getRangeByStatus registry st ! 0)) = st"
  using drawn_in_range [OF assms, of 0] by simp_all

lemma Random_getHostFrom_eq:
  assumes "ids_dense registry" "getRangeByStatus registry st \<noteq> []"
  shows "Random_getHostFrom rnd registry (getRangeByStatus registry st) =
           Inr (endpoint_info registry
                  (getRangeByStatus registry st ! (rnd mod length (getRangeByStatus registry st)))
                  False)"
  using assms drawn_in_range(1) [OF assms, of rnd]
  by (simp add: Random_getHostFrom_def uniform_int_distribution_def at_def asOptimalEndpoint_eq)

lemma FirstOrRandom_getHostFrom_eq:
  assumes "ids_dense registry" "getRangeByStatus registry st \<noteq> []"
  shows "FirstOrRandom_getHostFrom rnd registry (getRangeByStatus registry st) =
           Inr (endpoint_info registry
                  (getRangeByStatus registry st ! (rnd mod length (getRangeByStatus registry st)))
                  True)"
  using assms drawn_in_range(1) [OF assms, of rnd]
  by (simp add: FirstOrRandom_getHostFrom_def uniform_int_distribution_def at_def
      asTemporaryEndpoint_eq)

lemma Random_getHostToConnect_eq:
  assumes "ids_dense registry"
  shows "Random_getHostToConnect rnd registry =
     (if getRangeByStatus registry ONLINE \<noteq> []
      then (Inr (endpoint_info registry
                   (getRangeByStatus registry ONLINE !
                      (rnd mod length (getRangeByStatus registry ONLINE))) False), registry)
      else if getRangeByStatus registry UNDEF \<noteq> []
      then (Inr (endpoint_info registry
                   (getRangeByStatus registry UNDEF !
                      (rnd mod length (getRangeByStatus registry UNDEF))) False), registry)
      else (Inl ALL_CONNECTION_TRIES_FAILED, resetOfflineStatuses registry))"
  using assms by (simp add: Random_getHostToConnect_def Random_getHostFrom_eq Let_def)

lemma FirstOrRandom_getHostToConnect_eq:
  assumes "ids_dense registry" "registry \<noteq> []"
  shows "FirstOrRandom_getHostToConnect rnd registry =
     (if status (registry ! 0) = ONLINE then (Inr (endpoint_info registry 0 False), registry)
      else if getRangeByStatus registry ONLINE \<noteq> []
      then (Inr (endpoint_info registry
                   (getRangeByStatus registry ONLINE !
                      (rnd mod length (getRangeByStatus registry ONLINE))) True), registry)
      else if status (registry ! 0) = UNDEF then (Inr (endpoint_info registry 0 False), registry)
      else if getRangeByStatus registry UNDEF \<noteq> []
      then (Inr (endpoint_info registry
                   (getRangeByStatus registry UNDEF !
                      (rnd mod length (getRangeByStatus registry UNDEF))) True), registry)
      else (Inl ALL_CONNECTION_TRIES_FAILED, resetOfflineStatuses registry))"
  using assms
  by (simp add: FirstOrRandom_getHostToConnect_def FirstOrRandom_getHostFrom_eq Let_def
      findEndpointById_def at_def asOptimalEndpoint_eq)

lemma selectEndpoint_eq:
  "i < length registry \<Longrightarrow>
   selectEndpoint registry c i =
     (Inr (endpoint_info registry i False), registry, (i + 1) mod length registry)"
  by (auto simp: selectEndpoint_def getEndpointsCount_def asOptimalEndpoint_eq)

lemma RoundRobin_getHostToConnect_eq:
  assumes "ids_dense registry" "c < length registry"
  shows "RoundRobin_getHostToConnect registry c =
     (if status (registry ! c) = ONLINE
      then (Inr (endpoint_info registry c False), registry, (c + 1) mod length registry)
      else if getRangeByStatus registry ONLINE \<noteq> []
      then (Inr (endpoint_info registry (getRangeByStatus registry ONLINE ! 0) False), registry,
            (getRangeByStatus registry ONLINE ! 0 + 1) mod length registry)
      else if status (registry ! c) = UNDEF
      then (Inr (endpoint_info registry c False), registry, c)
      else if getRangeByStatus registry UNDEF \<noteq> []
      then (Inr (endpoint_info registry (getRangeByStatus registry UNDEF ! 0) False), registry,
            (getRangeByStatus registry UNDEF ! 0 + 1) mod length registry)
      else (Inl ALL_CONNECTION_TRIES_FAILED, resetOfflineStatuses registry, c))"
  using assms first_in_range(1) [OF assms(1), of ONLINE] first_in_range(1) [OF assms(1), of UNDEF]
  by (simp add: RoundRobin_getHostToConnect_def Let_def findEndpointById_def at_def
      asOptimalEndpoint_eq selectEndpoint_eq)

lemma getMostPriority_loop_spec:
  assumes "\<forall>i\<in>set xs. i < length ps" "sorted_wrt (<) xs"
  shows "\<exists>mp' mi'. getMostPriority_loop ps xs mp mi = Inr (mp', mi') \<and>
     (if \<exists>i\<in>set xs. ps ! i < mp
      then mi' \<in> set xs \<and> mp' = ps ! mi' \<and>
           (\<forall>j\<in>set xs. ps ! mi' \<le> ps ! j \<and> (ps ! j = ps ! mi' \<longrightarrow> mi' \<le> j))
      else mp' = mp \<and> mi' = mi)"
  using assms
proof (induction xs arbitrary: mp mi)
  case Nil
  then show ?case by simp
next
  case (Cons i xs)
  have i: "i < length ps" and xs: "\<forall>j\<in>set xs. j < length ps"
    and srt: "sorted_wrt (<) xs" and lt: "\<forall>j\<in>set xs. i < j"
    using Cons.prems by simp_all
  show ?case
  proof (cases "ps ! i < mp")
    case True
    from Cons.IH [OF xs srt, of "ps ! i" i] obtain mp' mi' where
      run: "getMostPriority_loop ps xs (ps ! i) i = Inr (mp', mi')" and
      post: "if \<exists>j\<in>set xs. ps ! j < ps ! i
             then mi' \<in> set xs \<and> mp' = ps ! mi' \<and>
               (\<forall>j\<in>set xs. ps ! mi' \<le> ps ! j \<and> (ps ! j = ps ! mi' \<longrightarrow> mi' \<le> j))
             else mp' = ps ! i \<and> mi' = i"
      by blast
    have eq: "getMostPriority_loop ps (i # xs) mp mi = Inr (mp', mi')"
      using True i run by (simp add: at_def)
    show ?thesis
    proof (cases "\<exists>j\<in>set xs. ps ! j < ps ! i")
      case better: True
      with post have m: "mi' \<in> set xs" "mp' = ps ! mi'"
        and least: "\<forall>j\<in>set xs. ps ! mi' \<le> ps ! j \<and> (ps ! j = ps ! mi' \<longrightarrow> mi' \<le> j)"
        by simp_all
      from better least have "ps ! mi' < ps ! i" by (meson le_less_trans)
      with m least True eq show ?thesis by (auto simp: less_imp_le)
    next
      case none: False
      with post have m: "mp' = ps ! i" "mi' = i" by simp_all
      from none have "\<forall>j\<in>set xs. ps ! i \<le> ps ! j" by (simp add: not_less)
      with m lt True eq show ?thesis by (auto simp: less_imp_le)
    qed
  next
    case False
    from Cons.IH [OF xs srt, of mp mi] obtain mp' mi' where
      run: "getMostPriority_loop ps xs mp mi = Inr (mp', mi')" and
      post: "if \<exists>j\<in>set xs. ps ! j < mp
             then mi' \<in> set xs \<and> mp' = ps ! mi' \<and>
               (\<forall>j\<in>set xs. ps ! mi' \<le> ps ! j \<and> (ps ! j = ps ! mi' \<longrightarrow> mi' \<le> j))
             else mp' = mp \<and> mi' = mi"
      by blast
    have eq: "getMostPriority_loop ps (i # xs) mp mi = Inr (mp', mi')"
      using False i run by (simp add: at_def)
    show ?thesis
    proof (cases "\<exists>j\<in>set xs. ps ! j < mp")
      case better: True
      with post have m: "mi' \<in> set xs" "mp' = ps ! mi'"
        and least: "\<forall>j\<in>set xs. ps ! mi' \<le> ps ! j \<and> (ps ! j = ps ! mi' \<longrightarrow> mi' \<le> j)"
        by simp_all
      from better least have "ps ! mi' < mp" by (meson le_less_trans)
      with False have "ps ! mi' < ps ! i" by simp
      with m least better eq show ?thesis by (auto simp: less_imp_le)
    next
      case none: False
      with post have m: "mp' = mp" "mi' = mi" by simp_all
      with none False eq show ?thesis by auto
    qed
  qed
qed

lemma below_size_t_max: "p \<noteq> size_t_max \<Longrightarrow> p < size_t_max"
  unfolding size_t_max_def by (simp add: word_order.not_eq_extremum)

lemma getMostPriority_eq:
  assumes "ids_dense registry" "length ps = length registry" "size_t_max \<notin> set ps"
  shows "\<exists>r. getMostPriority registry ps st = Inr r \<and>
     (if getRangeByStatus registry st = [] then r = None
      else \<exists>m. r = Some m \<and> m \<in> set (getRangeByStatus registry st) \<and>
             (\<forall>j\<in>set (getRangeByStatus registry st).
                ps ! m \<le> ps ! j \<and> (ps ! j = ps ! m \<longrightarrow> m \<le> j)))"
proof -
  let ?xs = "getRangeByStatus registry st"
  have inr: "\<forall>i\<in>set ?xs. i < length ps"
    using assms(1,2) by (simp add: set_getRangeByStatus)
  have srt: "sorted_wrt (<) ?xs"
    using assms(1) by (rule sorted_getRangeByStatus)
  from getMostPriority_loop_spec [OF inr srt, of size_t_max "length registry"]
  obtain mp' mi' where
    run: "getMostPriority_loop ps ?xs size_t_max (length registry) = Inr (mp', mi')" and
    post: "if \<exists>i\<in>set ?xs. ps ! i < size_t_max
           then mi' \<in> set ?xs \<and> mp' = ps ! mi' \<and>
             (\<forall>j\<in>set ?xs. ps ! mi' \<le> ps ! j \<and> (ps ! j = ps ! mi' \<longrightarrow> mi' \<le> j))
           else mp' = size_t_max \<and> mi' = length registry"
    by blast
  show ?thesis
  proof (cases "?xs = []")
    case True
    with run post show ?thesis
      by (simp add: getMostPriority_def getEndpointsCount_def)
  next
    case False
    then have "hd ?xs \<in> set ?xs" by simp
    then obtain k where k: "k \<in> set ?xs" by blast
    with inr have "ps ! k \<in> set ps" by simp
    with assms(3) have "ps ! k < size_t_max" by (metis below_size_t_max)
    with k have "\<exists>i\<in>set ?xs. ps ! i < size_t_max" by blast
    with post have m: "mi' \<in> set ?xs"
      and least: "\<forall>j\<in>set ?xs. ps ! mi' \<le> ps ! j \<and> (ps ! j = ps ! mi' \<longrightarrow> mi' \<le> j)"
      by simp_all
    from m inr assms(2) have "mi' \<noteq> length registry" by auto
    with run m least False show ?thesis
      by (simp add: getMostPriority_def getEndpointsCount_def)
  qed
qed

lemma getHostWithSetting_eq:
  assumes "i < length registry" "length ps = length registry"
  shows "getHostWithSetting registry ps i = Inr (endpoint_info registry i (ps ! i \<noteq> ps ! 0))"
proof -
  from assms have "0 < length ps" "0 < length registry" by auto
  with assms show ?thesis
    by (simp add: getHostWithSetting_def isOptimalEndpoint_def at_def asOptimalEndpoint_eq
        asTemporaryEndpoint_eq)
qed

lemma Priorities_getHostToConnect_cases:
  assumes "ids_dense registry" "length ps = length registry" "size_t_max \<notin> set ps"
  shows "if getRangeByStatus registry ONLINE \<noteq> []
     then \<exists>m. m \<in> set (getRangeByStatus registry ONLINE) \<and>
            (\<forall>j\<in>set (getRangeByStatus registry ONLINE).
               ps ! m \<le> ps ! j \<and> (ps ! j = ps ! m \<longrightarrow> m \<le> j)) \<and>
            Priorities_getHostToConnect registry ps =
              (Inr (endpoint_info registry m (ps ! m \<noteq> ps ! 0)), registry)
     else if getRangeByStatus registry UNDEF \<noteq> []
     then \<exists>m. m \<in> set (getRangeByStatus registry UNDEF) \<and>
            (\<forall>j\<in>set (getRangeByStatus registry UNDEF).
               ps ! m \<le> ps ! j \<and> (ps ! j = ps ! m \<longrightarrow> m \<le> j)) \<and>
            Priorities_getHostToConnect registry ps =
              (Inr (endpoint_info registry m (ps ! m \<noteq> ps ! 0)), registry)
     else Priorities_getHostToConnect registry ps =
            (Inl ALL_CONNECTION_TRIES_FAILED, resetOfflineStatuses registry)"
proof -
  from getMostPriority_eq [OF assms, of ONLINE] obtain r1 where
    r1: "getMostPriority registry ps ONLINE = Inr r1" and
    p1: "if getRangeByStatus registry ONLINE = [] then r1 = None
         else \<exists>m. r1 = Some m \<and> m \<in> set (getRangeByStatus registry ONLINE) \<and>
             (\<forall>j\<in>set (getRangeByStatus registry ONLINE).
                ps ! m \<le> ps ! j \<and> (ps ! j = ps ! m \<longrightarrow> m \<le> j))"
    by blast
  from getMostPriority_eq [OF assms, of UNDEF] obtain r2 where
    r2: "getMostPriority registry ps UNDEF = Inr r2" and
    p2: "if getRangeByStatus registry UNDEF = [] then r2 = None
         else \<exists>m. r2 = Some m \<and> m \<in> set (getRangeByStatus registry UNDEF) \<and>
             (\<forall>j\<in>set (getRangeByStatus registry UNDEF).
                ps ! m \<le> ps ! j \<and> (ps ! j = ps ! m \<longrightarrow> m \<le> j))"
    by blast
  show ?thesis
  proof (cases "getRangeByStatus registry ONLINE = []")
    case False
    with p1 obtain m where m: "r1 = Some m" "m \<in> set (getRangeByStatus registry ONLINE)"
      "\<forall>j\<in>set (getRangeByStatus registry ONLINE).
          ps ! m \<le> ps ! j \<and> (ps ! j = ps ! m \<longrightarrow> m \<le> j)"
      by auto
    from m(2) assms(1) have "m < length registry" by (simp add: set_getRangeByStatus)
    with assms(2) have "getHostWithSetting registry ps m =
        Inr (endpoint_info registry m (ps ! m \<noteq> ps ! 0))"
      by (simp add: getHostWithSetting_eq)
    with r1 m False show ?thesis
      by (auto simp: Priorities_getHostToConnect_def)
  next
    case True
    with p1 have n1: "r1 = None" by simp
    show ?thesis
    proof (cases "getRangeByStatus registry UNDEF = []")
      case False
      with p2 obtain m where m: "r2 = Some m" "m \<in> set (getRangeByStatus registry UNDEF)"
        "\<forall>j\<in>set (getRangeByStatus registry UNDEF).
            ps ! m \<le> ps ! j \<and> (ps ! j = ps ! m \<longrightarrow> m \<le> j)"
        by auto
      from m(2) assms(1) have "m < length registry" by (simp add: set_getRangeByStatus)
      with assms(2) have "getHostWithSetting registry ps m =
          Inr (endpoint_info registry m (ps ! m \<noteq> ps ! 0))"
        by (simp add: getHostWithSetting_eq)
      with r1 n1 r2 m True False show ?thesis
        by (auto simp: Priorities_getHostToConnect_def)
    next
      case undef: True
      with p2 have "r2 = None" by simp
      with r1 n1 r2 True undef show ?thesis
        by (simp add: Priorities_getHostToConnect_def)
    qed
  qed
qed

lemma getHostToConnect_Random:
  assumes "well_formed (Random registry)"
  shows "if \<forall>e\<in>set registry. status e = OFFLINE
     then getHostToConnect rnd (Random registry) =
            (Inl ALL_CONNECTION_TRIES_FAILED, Random (resetOfflineStatuses registry))
     else \<exists>i. i < length registry \<and>
            (status (registry ! i) = ONLINE \<or> status (registry ! i) = UNDEF) \<and>
            getHostToConnect rnd (Random registry) =
              (Inr (endpoint_info registry i False), Random registry)"
proof -
  from assms have d: "ids_dense registry" by simp
  show ?thesis
  proof (cases "getRangeByStatus registry ONLINE = []")
    case False
    with drawn_in_range [OF d False, of rnd] show ?thesis
      by (auto simp: Random_getHostToConnect_eq [OF d] all_offline_iff)
  next
    case True
    show ?thesis
    proof (cases "getRangeByStatus registry UNDEF = []")
      case False
      with True drawn_in_range [OF d False, of rnd] show ?thesis
        by (auto simp: Random_getHostToConnect_eq [OF d] all_offline_iff)
    next
      case undef: True
      with True show ?thesis
        by (simp add: Random_getHostToConnect_eq [OF d] all_offline_iff)
    qed
  qed
qed

lemma not_all_offline:
  "i < length registry \<Longrightarrow> status (registry ! i) \<noteq> OFFLINE \<Longrightarrow>
   \<not> (\<forall>e\<in>set registry. status e = OFFLINE)"
  by (meson nth_mem)

lemma status_at_0:
  assumes "registry \<noteq> []" "getRangeByStatus registry st = []"
  shows "status (registry ! 0) \<noteq> st"
proof -
  from assms(1) have "registry ! 0 \<in> set registry" by simp
  with assms(2) show ?thesis by (simp add: getRangeByStatus_Nil)
qed

lemma status_at:
  assumes "c < length registry" "getRangeByStatus registry st = []"
  shows "status (registry ! c) \<noteq> st"
proof -
  from assms(1) have "registry ! c \<in> set registry" by simp
  with assms(2) show ?thesis by (simp add: getRangeByStatus_Nil)
qed

lemma getHostToConnect_FirstOrRandom:
  assumes "well_formed (FirstOrRandom registry)"
  shows "if \<forall>e\<in>set registry. status e = OFFLINE
     then getHostToConnect rnd (FirstOrRandom registry) =
            (Inl ALL_CONNECTION_TRIES_FAILED, FirstOrRandom (resetOfflineStatuses registry))
     else \<exists>i fallback. i < length registry \<and>
            (status (registry ! i) = ONLINE \<or> status (registry ! i) = UNDEF) \<and>
            getHostToConnect rnd (FirstOrRandom registry) =
              (Inr (endpoint_info registry i fallback), FirstOrRandom registry)"
proof -
  from assms have d: "ids_dense registry" and ne: "registry \<noteq> []" by simp_all
  note eq = FirstOrRandom_getHostToConnect_eq [OF d ne, of rnd]
  consider (a) "status (registry ! 0) = ONLINE"
    | (b) "status (registry ! 0) \<noteq> ONLINE" "getRangeByStatus registry ONLINE \<noteq> []"
    | (c) "getRangeByStatus registry ONLINE = []" "status (registry ! 0) = UNDEF"
    | (d) "getRangeByStatus registry ONLINE = []" "status (registry ! 0) = OFFLINE"
          "getRangeByStatus registry UNDEF \<noteq> []"
    | (e) "getRangeByStatus registry ONLINE = []" "getRangeByStatus registry UNDEF = []"
    using status_at_0 [OF ne, of ONLINE] by (cases "status (registry ! 0)") auto
  then show ?thesis
  proof cases
    case a
    from ne have pos: "0 < length registry" by simp
    with a have "\<not> (\<forall>e\<in>set registry. status e = OFFLINE)"
      using not_all_offline [of 0 registry] by simp
    then show ?thesis using a eq pos by auto
  next
    case b
    with drawn_in_range [OF d b(2), of rnd] eq show ?thesis
      by (auto simp: all_offline_iff)
  next
    case c
    from ne have pos: "0 < length registry" by simp
    with c have "\<not> (\<forall>e\<in>set registry. status e = OFFLINE)"
      using not_all_offline [of 0 registry] by simp
    then show ?thesis using c eq pos by auto
  next
    case d
    with drawn_in_range [OF \<open>ids_dense registry\<close> d(3), of rnd] eq show ?thesis
      by (auto simp: all_offline_iff)
  next
    case e
    with status_at_0 [OF ne e(1)] status_at_0 [OF ne e(2)] eq show ?thesis
      by (simp add: all_offline_iff)
  qed
qed

lemma getHostToConnect_RoundRobin:
  assumes "well_formed (RoundRobin registry c)"
  shows "if \<forall>e\<in>set registry. status e = OFFLINE
     then getHostToConnect rnd (RoundRobin registry c) =
            (Inl ALL_CONNECTION_TRIES_FAILED, RoundRobin (resetOfflineStatuses registry) c)
     else \<exists>i c'. i < length registry \<and> c' < length registry \<and>
            (status (registry ! i) = ONLINE \<or> status (registry ! i) = UNDEF) \<and>
            getHostToConnect rnd (RoundRobin registry c) =
              (Inr (endpoint_info registry i False), RoundRobin registry c')"
proof -
  from assms have d: "ids_dense registry" and ne: "registry \<noteq> []" and cl: "c < length registry"
    by simp_all
  note eq = RoundRobin_getHostToConnect_eq [OF d cl]
  from ne have md: "\<And>k. k mod length registry < length registry" by simp
  consider (a) "status (registry ! c) = ONLINE"
    | (b) "status (registry ! c) \<noteq> ONLINE" "getRangeByStatus registry ONLINE \<noteq> []"
    | (c) "getRangeByStatus registry ONLINE = []" "status (registry ! c) = UNDEF"
    | (d) "getRangeByStatus registry ONLINE = []" "status (registry ! c) = OFFLINE"
          "getRangeByStatus registry UNDEF \<noteq> []"
    | (e) "getRangeByStatus registry ONLINE = []" "getRangeByStatus registry UNDEF = []"
    using status_at [OF cl, of ONLINE] by (cases "status (registry ! c)") auto
  then show ?thesis
  proof cases
    case a
    with cl have "\<not> (\<forall>e\<in>set registry. status e = OFFLINE)"
      using not_all_offline [of c registry] by simp
    then show ?thesis using a eq cl md by auto
  next
    case b
    with first_in_range [OF d b(2)] eq md show ?thesis
      by (auto simp: all_offline_iff)
  next
    case c
    with cl have "\<not> (\<forall>e\<in>set registry. status e = OFFLINE)"
      using not_all_offline [of c registry] by simp
    then show ?thesis using c eq cl by auto
  next
    case d
    with first_in_range [OF \<open>ids_dense registry\<close> d(3)] eq md show ?thesis
      by (auto simp: all_offline_iff)
  next
    case e
    with status_at [OF cl e(1)] status_at [OF cl e(2)] eq show ?thesis
      by (simp add: all_offline_iff)
  qed
qed

lemma getHostToConnect_Priorities:
  assumes "well_formed (IBalancerWithPriorities registry ps)"
  shows "if \<forall>e\<in>set registry. status e = OFFLINE
     then getHostToConnect rnd (IBalancerWithPriorities registry ps) =
            (Inl ALL_CONNECTION_TRIES_FAILED,
             IBalancerWithPriorities (resetOfflineStatuses registry) ps)
     else \<exists>i fallback. i < length registry \<and>
            (status (registry ! i) = ONLINE \<or> status (registry ! i) = UNDEF) \<and>
            getHostToConnect rnd (IBalancerWithPriorities registry ps) =
              (Inr (endpoint_info registry i fallback), IBalancerWithPriorities registry ps)"
proof -
  from assms have d: "ids_dense registry" and len: "length ps = length registry"
    and mx: "size_t_max \<notin> set ps" by simp_all
  note cases = Priorities_getHostToConnect_cases [OF d len mx]
  show ?thesis
  proof (cases "getRangeByStatus registry ONLINE = []")
    case False
    with cases obtain m where "m \<in> set (getRangeByStatus registry ONLINE)"
      "Priorities_getHostToConnect registry ps =
         (Inr (endpoint_info registry m (ps ! m \<noteq> ps ! 0)), registry)"
      by auto
    with d False show ?thesis
      by (auto simp: all_offline_iff set_getRangeByStatus)
  next
    case True
    show ?thesis
    proof (cases "getRangeByStatus registry UNDEF = []")
      case False
      with True cases obtain m where "m \<in> set (getRangeByStatus registry UNDEF)"
        "Priorities_getHostToConnect registry ps =
           (Inr (endpoint_info registry m (ps ! m \<noteq> ps ! 0)), registry)"
        by auto
      with d False show ?thesis
        by (auto simp: all_offline_iff set_getRangeByStatus)
    next
      case undef: True
      with True cases show ?thesis by (simp add: all_offline_iff)
    qed
  qed
qed

subsection \<open>The invariant of the balancers the code builds\<close>

lemma init_Inr:
  "(init pd ld policy hosts = Inr b) =
   (hosts \<noteq> [] \<and> b = getConnectionBalancer pd ld policy hosts)"
  by (auto simp: init_def)

lemma getAvailableEndpointsCount_0:
  "(getAvailableEndpointsCount registry = 0) = (\<forall>e\<in>set registry. status e = OFFLINE)"
  by (simp add: getAvailableEndpointsCount_def all_offline_iff)

lemma getHostToConnect_well_formed:
  assumes "well_formed b"
  shows "if getAvailableEndpointsCount (registry_of b) = 0
     then getHostToConnect rnd b =
            (Inl ALL_CONNECTION_TRIES_FAILED, balancer_resetOfflineStatuses b)
     else \<exists>i fallback b'. i < length (registry_of b) \<and>
            (status (registry_of b ! i) = ONLINE \<or> status (registry_of b ! i) = UNDEF) \<and>
            getHostToConnect rnd b = (Inr (endpoint_info (registry_of b) i fallback), b') \<and>
            registry_of b' = registry_of b \<and> priorities_of b' = priorities_of b \<and>
            well_formed b' \<and>
            (b' = b \<or> (\<exists>c c'. b = RoundRobin (registry_of b) c \<and>
                                b' = RoundRobin (registry_of b) c'))"
proof (cases "\<forall>e\<in>set (registry_of b). status e = OFFLINE")
  case True
  then have zero: "getAvailableEndpointsCount (registry_of b) = 0"
    by (simp add: getAvailableEndpointsCount_0)
  have "getHostToConnect rnd b =
          (Inl ALL_CONNECTION_TRIES_FAILED, balancer_resetOfflineStatuses b)"
  proof (cases b)
    case (Random registry)
    with assms True getHostToConnect_Random [of registry rnd] show ?thesis
      by (simp add: balancer_resetOfflineStatuses_def del: getHostToConnect.simps)
  next
    case (IBalancerWithPriorities registry ps)
    with assms True getHostToConnect_Priorities [of registry ps rnd] show ?thesis
      by (simp add: balancer_resetOfflineStatuses_def del: getHostToConnect.simps)
  next
    case (RoundRobin registry c)
    with assms True getHostToConnect_RoundRobin [of registry c rnd] show ?thesis
      by (simp add: balancer_resetOfflineStatuses_def del: getHostToConnect.simps)
  next
    case (FirstOrRandom registry)
    with assms True getHostToConnect_FirstOrRandom [of registry rnd] show ?thesis
      by (simp add: balancer_resetOfflineStatuses_def del: getHostToConnect.simps)
  qed
  with zero show ?thesis by simp
next
  case False
  then have pos: "getAvailableEndpointsCount (registry_of b) \<noteq> 0"
    by (simp add: getAvailableEndpointsCount_0)
  have "\<exists>i fallback b'. i < length (registry_of b) \<and>
            (status (registry_of b ! i) = ONLINE \<or> status (registry_of b ! i) = UNDEF) \<and>
            getHostToConnect rnd b = (Inr (endpoint_info (registry_of b) i fallback), b') \<and>
            registry_of b' = registry_of b \<and> priorities_of b' = priorities_of b \<and>
            well_formed b' \<and>
            (b' = b \<or> (\<exists>c c'. b = RoundRobin (registry_of b) c \<and>
                                b' = RoundRobin (registry_of b) c'))"
  proof (cases b)
    case (Random registry)
    with assms False getHostToConnect_Random [of registry rnd]
    obtain i where "i < length registry"
      "status (registry ! i) = ONLINE \<or> status (registry ! i) = UNDEF"
      "getHostToConnect rnd (Random registry) =
         (Inr (endpoint_info registry i False), Random registry)"
      by (auto simp del: getHostToConnect.simps split: if_splits)
    with assms Random show ?thesis
      by (auto simp del: getHostToConnect.simps)
  next
    case (IBalancerWithPriorities registry ps)
    with assms False getHostToConnect_Priorities [of registry ps rnd]
    obtain i fallback where "i < length registry"
      "status (registry ! i) = ONLINE \<or> status (registry ! i) = UNDEF"
      "getHostToConnect rnd (IBalancerWithPriorities registry ps) =
         (Inr (endpoint_info registry i fallback), IBalancerWithPriorities registry ps)"
      by (auto simp del: getHostToConnect.simps split: if_splits)
    with assms IBalancerWithPriorities show ?thesis
      by (auto simp del: getHostToConnect.simps)
  next
    case (RoundRobin registry c)
    with assms False getHostToConnect_RoundRobin [of registry c rnd]
    obtain i c' where "i < length registry" "c' < length registry"
      "status (registry ! i) = ONLINE \<or> status (registry ! i) = UNDEF"
      "getHostToConnect rnd (RoundRobin registry c) =
         (Inr (endpoint_info registry i False), RoundRobin registry c')"
      by (auto simp del: getHostToConnect.simps split: if_splits)
    with assms RoundRobin show ?thesis
      by (auto simp del: getHostToConnect.simps)
  next
    case (FirstOrRandom registry)
    with assms False getHostToConnect_FirstOrRandom [of registry rnd]
    obtain i fallback where "i < length registry"
      "status (registry ! i) = ONLINE \<or> status (registry ! i) = UNDEF"
      "getHostToConnect rnd (FirstOrRandom registry) =
         (Inr (endpoint_info registry i fallback), FirstOrRandom registry)"
      by (auto simp del: getHostToConnect.simps split: if_splits)
    with assms FirstOrRandom show ?thesis
      by (auto simp del: getHostToConnect.simps)
  qed
  with pos show ?thesis by simp
qed

lemma well_formed_set_registry:
  "well_formed b \<Longrightarrow> ids_dense r \<Longrightarrow> length r = length (registry_of b) \<Longrightarrow>
   well_formed (set_registry b r)"
  by (cases b) auto

lemma priorities_of_set_registry [simp]:
  "priorities_of (set_registry b r) = priorities_of b"
  by (cases b) simp_all

lemma registry_of_set_registry [simp]:
  "registry_of (set_registry b r) = r"
  by (cases b) simp_all

lemma well_formed_dense: "well_formed b \<Longrightarrow> ids_dense (registry_of b)"
  by (cases b) simp_all

lemma well_formed_markHostOnline:
  assumes "well_formed b" "balancer_markHostOnline i b = Inr b'"
  shows "well_formed b' \<and> priorities_of b' = priorities_of b"
proof -
  from assms(2) have i: "i < length (registry_of b)"
    and b': "b' = set_registry b ((registry_of b)[i := (registry_of b ! i)\<lparr>status := ONLINE\<rparr>])"
    by (auto simp: balancer_markHostOnline_def markHostOnline_def split: if_splits)
  from assms(1) i show ?thesis unfolding b'
    by (simp add: well_formed_set_registry ids_dense_update well_formed_dense)
qed

lemma well_formed_markHostOffline:
  assumes "well_formed b" "balancer_markHostOffline i b = Inr b'"
  shows "well_formed b' \<and> priorities_of b' = priorities_of b"
proof -
  from assms(2) have i: "i < length (registry_of b)"
    and b': "b' = set_registry b ((registry_of b)[i := (registry_of b ! i)\<lparr>status := OFFLINE\<rparr>])"
    by (auto simp: balancer_markHostOffline_def markHostOffline_def split: if_splits)
  from assms(1) i show ?thesis unfolding b'
    by (simp add: well_formed_set_registry ids_dense_update well_formed_dense)
qed

lemma well_formed_resetOfflineStatuses:
  "well_formed b \<Longrightarrow>
   well_formed (balancer_resetOfflineStatuses b) \<and>
   priorities_of (balancer_resetOfflineStatuses b) = priorities_of b"
  by (simp add: balancer_resetOfflineStatuses_def well_formed_set_registry
      ids_dense_resetOfflineStatuses well_formed_dense)

lemma well_formed_getHostToConnect:
  assumes "well_formed b"
  shows "well_formed (snd (getHostToConnect rnd b)) \<and>
         priorities_of (snd (getHostToConnect rnd b)) = priorities_of b"
proof (cases "getAvailableEndpointsCount (registry_of b) = 0")
  case True
  with getHostToConnect_well_formed [OF assms, of rnd] assms show ?thesis
    by (simp add: well_formed_resetOfflineStatuses)
next
  case False
  with getHostToConnect_well_formed [OF assms, of rnd] show ?thesis
    by auto
qed

lemma well_formed_apply_update:
  assumes "well_formed b" "apply_update u b = Inr b'"
  shows "well_formed b' \<and> priorities_of b' = priorities_of b"
proof (cases u)
  case (MarkHostOnline i)
  with assms show ?thesis by (simp add: well_formed_markHostOnline)
next
  case (MarkHostOffline i)
  with assms show ?thesis by (simp add: well_formed_markHostOffline)
next
  case ResetOfflineStatuses
  with assms show ?thesis by (auto simp: well_formed_resetOfflineStatuses)
next
  case (GetHostToConnect rnd)
  with assms(2) have "b' = snd (getHostToConnect rnd b)"
    by (auto split: prod.splits sum.splits exception.splits)
  with assms(1) show ?thesis by (simp add: well_formed_getHostToConnect)
qed

lemma well_formed_apply_updates:
  "well_formed b \<Longrightarrow> apply_updates us b = Inr b' \<Longrightarrow>
   well_formed b' \<and> priorities_of b' = priorities_of b"
proof (induction us arbitrary: b)
  case Nil
  then show ?case by simp
next
  case (Cons u us)
  from Cons.prems(2) obtain b1 where u: "apply_update u b = Inr b1"
    and us: "apply_updates us b1 = Inr b'"
    by (auto split: sum.splits)
  from well_formed_apply_update [OF Cons.prems(1) u]
  have "well_formed b1" "priorities_of b1 = priorities_of b" by simp_all
  with Cons.IH [OF _ us] show ?case by simp
qed

lemma IBalancerWithEndpointStatuses_Nil [simp]:
  "(IBalancerWithEndpointStatuses hosts = []) = (hosts = [])"
  by (simp add: IBalancerWithEndpointStatuses_map)

lemma well_formed_getConnectionBalancer:
  assumes "hosts \<noteq> []"
    and "size_t_max \<notin> set (priorities_of (getConnectionBalancer pd ld policy hosts))"
  shows "well_formed (getConnectionBalancer pd ld policy hosts)"
  using assms
  by (cases policy)
    (simp_all add: new_IBalancerWithPriorities_def Let_def getEndpointsCount_def
      ids_dense_IBalancerWithEndpointStatuses)

lemma reachable_well_formed:
  assumes "hosts \<noteq> []"
    and "size_t_max \<notin> set (priorities_of (getConnectionBalancer pd ld policy hosts))"
    and "apply_updates us (getConnectionBalancer pd ld policy hosts) = Inr b"
  shows "well_formed b"
  using well_formed_apply_updates [OF well_formed_getConnectionBalancer [OF assms(1,2)] assms(3)]
  by simp

lemma id'_endpoint_info [simp]: "EndpointInfo.id' (endpoint_info registry i fallback) = i"
  by (simp add: endpoint_info_def)

lemma address_endpoint_info [simp]:
  "EndpointInfo.address (endpoint_info registry i fallback) = Endpoint.address (registry ! i)"
  by (simp add: endpoint_info_def)

lemma secure_endpoint_info [simp]:
  "EndpointInfo.secure (endpoint_info registry i fallback) = Endpoint.secure (registry ! i)"
  by (simp add: endpoint_info_def)

lemma fallback_endpoint_info [simp]:
  "use_fallback_session_lifetime (settings (endpoint_info registry i fallback)) = fallback"
  by (simp add: endpoint_info_def)

section \<open>Selection returns an available endpoint or fails (C1)\<close>

text \<open>
  C1: take any policy, any non-empty host list and any sequence of markHostOnline,
  markHostOffline, resetOfflineStatuses (and earlier getHostToConnect) calls that stay
  inside the registry, with no priority equal to \<open>size_t_max\<close>. Then
  getAvailableEndpointsCount is zero exactly when no endpoint is ONLINE or UNDEF; in
  that case getHostToConnect throws ALL_CONNECTION_TRIES_FAILED and leaves the balancer
  with resetOfflineStatuses applied; otherwise it returns the EndpointInfo (id, address,
  secure flag) of an endpoint of the registry whose status is ONLINE or UNDEF.
\<close>

theorem getHostToConnect_online_or_undef:
  assumes "hosts \<noteq> []"
    and "size_t_max \<notin> set (priorities_of (getConnectionBalancer pd ld policy hosts))"
    and "apply_updates us (getConnectionBalancer pd ld policy hosts) = Inr b"
  shows "(getAvailableEndpointsCount (registry_of b) = 0) =
           (\<forall>e\<in>set (registry_of b). status e \<noteq> ONLINE \<and> status e \<noteq> UNDEF) \<and>
     (if getAvailableEndpointsCount (registry_of b) = 0
      then getHostToConnect rnd b =
             (Inl ALL_CONNECTION_TRIES_FAILED, balancer_resetOfflineStatuses b)
      else \<exists>info b'. getHostToConnect rnd b = (Inr info, b') \<and>
             EndpointInfo.id' info < length (registry_of b) \<and>
             (status (registry_of b ! EndpointInfo.id' info) = ONLINE \<or>
              status (registry_of b ! EndpointInfo.id' info) = UNDEF) \<and>
             EndpointInfo.address info =
               Endpoint.address (registry_of b ! EndpointInfo.id' info) \<and>
             EndpointInfo.secure info =
               Endpoint.secure (registry_of b ! EndpointInfo.id' info))"
proof -
  have wf: "well_formed b" using assms by (rule reachable_well_formed)
  have count: "(getAvailableEndpointsCount (registry_of b) = 0) =
           (\<forall>e\<in>set (registry_of b). status e \<noteq> ONLINE \<and> status e \<noteq> UNDEF)"
    by (auto simp: getAvailableEndpointsCount_def getRangeByStatus_Nil)
  have sel: "if getAvailableEndpointsCount (registry_of b) = 0
      then getHostToConnect rnd b =
             (Inl ALL_CONNECTION_TRIES_FAILED, balancer_resetOfflineStatuses b)
      else \<exists>info b'. getHostToConnect rnd b = (Inr info, b') \<and>
             EndpointInfo.id' info < length (registry_of b) \<and>
             (status (registry_of b ! EndpointInfo.id' info) = ONLINE \<or>
              status (registry_of b ! EndpointInfo.id' info) = UNDEF) \<and>
             EndpointInfo.address info =
               Endpoint.address (registry_of b ! EndpointInfo.id' info) \<and>
             EndpointInfo.secure info =
               Endpoint.secure (registry_of b ! EndpointInfo.id' info)"
  proof (cases "getAvailableEndpointsCount (registry_of b) = 0")
    case True
    with getHostToConnect_well_formed [OF wf, of rnd] show ?thesis by simp
  next
    case False
    with getHostToConnect_well_formed [OF wf, of rnd] obtain i fallback b' where
      "i < length (registry_of b)"
      "status (registry_of b ! i) = ONLINE \<or> status (registry_of b ! i) = UNDEF"
      "getHostToConnect rnd b = (Inr (endpoint_info (registry_of b) i fallback), b')"
      by auto
    then have "\<exists>info b'. getHostToConnect rnd b = (Inr info, b') \<and>
             EndpointInfo.id' info < length (registry_of b) \<and>
             (status (registry_of b ! EndpointInfo.id' info) = ONLINE \<or>
              status (registry_of b ! EndpointInfo.id' info) = UNDEF) \<and>
             EndpointInfo.address info =
               Endpoint.address (registry_of b ! EndpointInfo.id' info) \<and>
             EndpointInfo.secure info =
               Endpoint.secure (registry_of b ! EndpointInfo.id' info)"
      by simp
    with False show ?thesis by simp
  qed
  from count sel show ?thesis by (rule conjI)
qed

theorem getHostToConnect_online_or_undef_witness:
  "getHostToConnect 0
     (RoundRobin
        [\<lparr>Endpoint.address = ''a'', secure = False, id' = 0, status = OFFLINE\<rparr>,
         \<lparr>Endpoint.address = ''b'', secure = False, id' = 1, status = OFFLINE\<rparr>] 0) =
     (Inl ALL_CONNECTION_TRIES_FAILED,
      RoundRobin
        [\<lparr>Endpoint.address = ''a'', secure = False, id' = 0, status = UNDEF\<rparr>,
         \<lparr>Endpoint.address = ''b'', secure = False, id' = 1, status = UNDEF\<rparr>] 0) \<and>
   (\<exists>info b'.
      getHostToConnect 0
        (IBalancerWithPriorities
           [\<lparr>Endpoint.address = ''a'', secure = False, id' = 0, status = OFFLINE\<rparr>,
            \<lparr>Endpoint.address = ''b'', secure = False, id' = 1, status = UNDEF\<rparr>] [0, 1]) =
        (Inr info, b') \<and>
      EndpointInfo.id' info < 2 \<and>
      (status ([\<lparr>Endpoint.address = ''a'', secure = False, id' = 0, status = OFFLINE\<rparr>,
                \<lparr>Endpoint.address = ''b'', secure = False, id' = 1, status = UNDEF\<rparr>] !
               EndpointInfo.id' info) = ONLINE \<or>
       status ([\<lparr>Endpoint.address = ''a'', secure = False, id' = 0, status = OFFLINE\<rparr>,
                \<lparr>Endpoint.address = ''b'', secure = False, id' = 1, status = UNDEF\<rparr>] !
               EndpointInfo.id' info) = UNDEF))"
proof -
  let ?rr = "getConnectionBalancer (\<lambda>a. 0) (\<lambda>a. 0) ROUND_ROBIN [''a'', ''b'']"
  let ?R = "RoundRobin
        [\<lparr>Endpoint.address = ''a'', secure = False, id' = 0, status = OFFLINE\<rparr>,
         \<lparr>Endpoint.address = ''b'', secure = False, id' = 1, status = OFFLINE\<rparr>] 0"
  let ?io = "getConnectionBalancer (\<lambda>a. 0) (\<lambda>a. 0) IN_ORDER [''a'', ''b'']"
  let ?P = "IBalancerWithPriorities
           [\<lparr>Endpoint.address = ''a'', secure = False, id' = 0, status = OFFLINE\<rparr>,
            \<lparr>Endpoint.address = ''b'', secure = False, id' = 1, status = UNDEF\<rparr>] [0, 1]"
  have h1: "[''a'', ''b''] \<noteq> []" by simp
  have r2: "size_t_max \<notin> set (priorities_of ?rr)" by code_simp
  have r3: "apply_updates [MarkHostOffline 0, MarkHostOffline 1] ?rr = Inr ?R" by code_simp
  have rz: "getAvailableEndpointsCount (registry_of ?R) = 0" by code_simp
  have rr: "balancer_resetOfflineStatuses ?R =
      RoundRobin
        [\<lparr>Endpoint.address = ''a'', secure = False, id' = 0, status = UNDEF\<rparr>,
         \<lparr>Endpoint.address = ''b'', secure = False, id' = 1, status = UNDEF\<rparr>] 0"
    by code_simp
  have p2: "size_t_max \<notin> set (priorities_of ?io)" by code_simp
  have p3: "apply_updates [MarkHostOffline 0] ?io = Inr ?P" by code_simp
  have pz: "getAvailableEndpointsCount (registry_of ?P) \<noteq> 0" by code_simp
  have first: "getHostToConnect 0 ?R =
     (Inl ALL_CONNECTION_TRIES_FAILED, balancer_resetOfflineStatuses ?R)"
    using getHostToConnect_online_or_undef [OF h1 r2 r3, of 0, THEN conjunct2]
    unfolding if_P [OF rz] .
  have "\<exists>info b'. getHostToConnect 0 ?P = (Inr info, b') \<and>
      EndpointInfo.id' info < length (registry_of ?P) \<and>
      (status (registry_of ?P ! EndpointInfo.id' info) = ONLINE \<or>
       status (registry_of ?P ! EndpointInfo.id' info) = UNDEF) \<and>
      EndpointInfo.address info = Endpoint.address (registry_of ?P ! EndpointInfo.id' info) \<and>
      EndpointInfo.secure info = Endpoint.secure (registry_of ?P ! EndpointInfo.id' info)"
    using getHostToConnect_online_or_undef [OF h1 p2 p3, of 0, THEN conjunct2]
    unfolding if_not_P [OF pz] .
  then obtain info b' where sel: "getHostToConnect 0 ?P = (Inr info, b')"
    and lt: "EndpointInfo.id' info < length (registry_of ?P)"
    and st: "status (registry_of ?P ! EndpointInfo.id' info) = ONLINE \<or>
     status (registry_of ?P ! EndpointInfo.id' info) = UNDEF"
    by blast
  from lt have lt2: "EndpointInfo.id' info < 2" by simp
  from st have st2:
    "status ([\<lparr>Endpoint.address = ''a'', secure = False, id' = 0, status = OFFLINE\<rparr>,
              \<lparr>Endpoint.address = ''b'', secure = False, id' = 1, status = UNDEF\<rparr>] !
             EndpointInfo.id' info) = ONLINE \<or>
     status ([\<lparr>Endpoint.address = ''a'', secure = False, id' = 0, status = OFFLINE\<rparr>,
              \<lparr>Endpoint.address = ''b'', secure = False, id' = 1, status = UNDEF\<rparr>] !
             EndpointInfo.id' info) = UNDEF"
    unfolding registry_of.simps .
  from sel lt2 st2 have second: "\<exists>info b'. getHostToConnect 0 ?P = (Inr info, b') \<and>
      EndpointInfo.id' info < 2 \<and>
      (status ([\<lparr>Endpoint.address = ''a'', secure = False, id' = 0, status = OFFLINE\<rparr>,
                \<lparr>Endpoint.address = ''b'', secure = False, id' = 1, status = UNDEF\<rparr>] !
               EndpointInfo.id' info) = ONLINE \<or>
       status ([\<lparr>Endpoint.address = ''a'', secure = False, id' = 0, status = OFFLINE\<rparr>,
                \<lparr>Endpoint.address = ''b'', secure = False, id' = 1, status = UNDEF\<rparr>] !
               EndpointInfo.id' info) = UNDEF)"
    by blast
  from first [unfolded rr] second show ?thesis by (rule conjI)
qed

section \<open>What selection changes (C10)\<close>

text \<open>
  C10: for a balancer built and updated as in C1, when at least one endpoint is ONLINE
  or UNDEF getHostToConnect returns an endpoint and leaves the registry (every
  address, secure flag, id and status) and the priorities as they were; the balancer
  is unchanged but for the cursor of a RoundRobin. When no endpoint is available the
  call fails and the only change is resetOfflineStatuses on the registry.
\<close>

theorem getHostToConnect_frame:
  assumes "hosts \<noteq> []"
    and "size_t_max \<notin> set (priorities_of (getConnectionBalancer pd ld policy hosts))"
    and "apply_updates us (getConnectionBalancer pd ld policy hosts) = Inr b"
  shows "if getAvailableEndpointsCount (registry_of b) = 0
     then fst (getHostToConnect rnd b) = Inl ALL_CONNECTION_TRIES_FAILED \<and>
          snd (getHostToConnect rnd b) =
            set_registry b (resetOfflineStatuses (registry_of b))
     else (\<exists>info. fst (getHostToConnect rnd b) = Inr info) \<and>
          registry_of (snd (getHostToConnect rnd b)) = registry_of b \<and>
          priorities_of (snd (getHostToConnect rnd b)) = priorities_of b \<and>
          (snd (getHostToConnect rnd b) = b \<or>
           (\<exists>c c'. b = RoundRobin (registry_of b) c \<and>
              snd (getHostToConnect rnd b) = RoundRobin (registry_of b) c'))"
proof -
  have wf: "well_formed b" using assms by (rule reachable_well_formed)
  show ?thesis
  proof (cases "getAvailableEndpointsCount (registry_of b) = 0")
    case True
    with getHostToConnect_well_formed [OF wf, of rnd] show ?thesis
      by (simp add: balancer_resetOfflineStatuses_def)
  next
    case False
    with getHostToConnect_well_formed [OF wf, of rnd] obtain i fallback b' where
      sel: "getHostToConnect rnd b = (Inr (endpoint_info (registry_of b) i fallback), b')" and
      fr: "registry_of b' = registry_of b" "priorities_of b' = priorities_of b"
        "b' = b \<or> (\<exists>c c'. b = RoundRobin (registry_of b) c \<and>
                             b' = RoundRobin (registry_of b) c')"
      by auto
    from sel have "fst (getHostToConnect rnd b) = Inr (endpoint_info (registry_of b) i fallback)"
      and "snd (getHostToConnect rnd b) = b'" by simp_all
    with fr False show ?thesis by auto
  qed
qed

theorem getHostToConnect_frame_witness:
  "registry_of (snd (getHostToConnect 0
     (RoundRobin
        [\<lparr>Endpoint.address = ''a'', secure = False, id' = 0, status = ONLINE\<rparr>,
         \<lparr>Endpoint.address = ''b'', secure = False, id' = 1, status = UNDEF\<rparr>] 0))) =
     registry_of (RoundRobin
        [\<lparr>Endpoint.address = ''a'', secure = False, id' = 0, status = ONLINE\<rparr>,
         \<lparr>Endpoint.address = ''b'', secure = False, id' = 1, status = UNDEF\<rparr>] 0) \<and>
   snd (getHostToConnect 0
     (IBalancerWithPriorities
        [\<lparr>Endpoint.address = ''a'', secure = False, id' = 0, status = OFFLINE\<rparr>,
         \<lparr>Endpoint.address = ''b'', secure = False, id' = 1, status = OFFLINE\<rparr>] [0, 1])) =
     IBalancerWithPriorities
        [\<lparr>Endpoint.address = ''a'', secure = False, id' = 0, status = UNDEF\<rparr>,
         \<lparr>Endpoint.address = ''b'', secure = False, id' = 1, status = UNDEF\<rparr>] [0, 1]"
proof -
  let ?rr = "getConnectionBalancer (\<lambda>a. 0) (\<lambda>a. 0) ROUND_ROBIN [''a'', ''b'']"
  let ?R = "RoundRobin
        [\<lparr>Endpoint.address = ''a'', secure = False, id' = 0, status = ONLINE\<rparr>,
         \<lparr>Endpoint.address = ''b'', secure = False, id' = 1, status = UNDEF\<rparr>] 0"
  let ?io = "getConnectionBalancer (\<lambda>a. 0) (\<lambda>a. 0) IN_ORDER [''a'', ''b'']"
  let ?P = "IBalancerWithPriorities
           [\<lparr>Endpoint.address = ''a'', secure = False, id' = 0, status = OFFLINE\<rparr>,
            \<lparr>Endpoint.address = ''b'', secure = False, id' = 1, status = OFFLINE\<rparr>] [0, 1]"
  have h1: "[''a'', ''b''] \<noteq> []" by simp
  have r2: "size_t_max \<notin> set (priorities_of ?rr)" by code_simp
  have r3: "apply_updates [MarkHostOnline 0] ?rr = Inr ?R" by code_simp
  have rz: "getAvailableEndpointsCount (registry_of ?R) \<noteq> 0" by code_simp
  have p2: "size_t_max \<notin> set (priorities_of ?io)" by code_simp
  have p3: "apply_updates [MarkHostOffline 0, MarkHostOffline 1] ?io = Inr ?P" by code_simp
  have pz: "getAvailableEndpointsCount (registry_of ?P) = 0" by code_simp
  have pr: "set_registry ?P (resetOfflineStatuses (registry_of ?P)) =
      IBalancerWithPriorities
        [\<lparr>Endpoint.address = ''a'', secure = False, id' = 0, status = UNDEF\<rparr>,
         \<lparr>Endpoint.address = ''b'', secure = False, id' = 1, status = UNDEF\<rparr>] [0, 1]"
    by code_simp
  have first: "registry_of (snd (getHostToConnect 0 ?R)) = registry_of ?R"
    using getHostToConnect_frame [OF h1 r2 r3, of 0] unfolding if_not_P [OF rz] by blast
  have second: "snd (getHostToConnect 0 ?P) =
      set_registry ?P (resetOfflineStatuses (registry_of ?P))"
    using getHostToConnect_frame [OF h1 p2 p3, of 0] unfolding if_P [OF pz] by blast
  from first second [unfolded pr] show ?thesis by (rule conjI)
qed

lemma priorities_of_new_IBalancerWithPriorities:
  "priorities_of (new_IBalancerWithPriorities hosts priority_calculator) =
     map priority_calculator (IBalancerWithEndpointStatuses hosts)"
proof -
  have "map (\<lambda>i. priority_calculator (IBalancerWithEndpointStatuses hosts ! i))
          [0..<length (IBalancerWithEndpointStatuses hosts)] =
        map priority_calculator (IBalancerWithEndpointStatuses hosts)"
    by (rule nth_equalityI) simp_all
  then show ?thesis
    by (simp add: new_IBalancerWithPriorities_def Let_def getEndpointsCount_def)
qed

lemma well_formed_new_IBalancerWithPriorities:
  assumes "hosts \<noteq> []"
    and "size_t_max \<notin> set (priorities_of (new_IBalancerWithPriorities hosts priority_calculator))"
  shows "well_formed (new_IBalancerWithPriorities hosts priority_calculator)"
  using assms
  by (simp add: new_IBalancerWithPriorities_def Let_def getEndpointsCount_def
      ids_dense_IBalancerWithEndpointStatuses)

section \<open>The priority policy selects the most preferred endpoint (C6)\<close>

text \<open>
  C6: take a priority balancer built by new_IBalancerWithPriorities from a non-empty
  host list, with no priority equal to \<open>size_t_max\<close>, after any sequence of
  in-range updates. Its priorities are the calculator's values of the endpoints, in id
  order. When some endpoint is ONLINE (or, if none is, UNDEF), getHostToConnect returns
  an endpoint \<open>m\<close> of those candidates whose priority is the minimum over the
  candidates and whose id is the lowest among the candidates of that priority, and the
  balancer is unchanged. Consequently, for two ONLINE endpoints \<open>x\<close> and \<open>y\<close>
  with priority(x) < priority(y), getHostToConnect does not return \<open>y\<close>.
\<close>

theorem Priorities_getHostToConnect_min_priority:
  assumes "hosts \<noteq> []"
    and "size_t_max \<notin> set (priorities_of (new_IBalancerWithPriorities hosts priority_calculator))"
    and "apply_updates us (new_IBalancerWithPriorities hosts priority_calculator) = Inr b"
  shows "b = IBalancerWithPriorities (registry_of b) (priorities_of b) \<and>
     priorities_of b = map priority_calculator (IBalancerWithEndpointStatuses hosts) \<and>
     (candidates (registry_of b) \<noteq> {} \<longrightarrow>
        (\<exists>m\<in>candidates (registry_of b).
           (\<forall>j\<in>candidates (registry_of b).
              priorities_of b ! m \<le> priorities_of b ! j \<and>
              (priorities_of b ! j = priorities_of b ! m \<longrightarrow> m \<le> j)) \<and>
           (\<exists>fallback.
              getHostToConnect rnd b = (Inr (endpoint_info (registry_of b) m fallback), b)))) \<and>
     (\<forall>x y info.
        x < length (registry_of b) \<and> y < length (registry_of b) \<and>
        status (registry_of b ! x) = ONLINE \<and> status (registry_of b ! y) = ONLINE \<and>
        priorities_of b ! x < priorities_of b ! y \<and> fst (getHostToConnect rnd b) = Inr info
        \<longrightarrow> EndpointInfo.id' info \<noteq> y)"
proof -
  let ?b0 = "new_IBalancerWithPriorities hosts priority_calculator"
  from well_formed_apply_updates [OF well_formed_new_IBalancerWithPriorities [OF assms(1,2)] assms(3)]
  have wf: "well_formed b" and pr: "priorities_of b = priorities_of ?b0" by simp_all
  from assms(1) have "priorities_of ?b0 \<noteq> []"
    by (simp add: priorities_of_new_IBalancerWithPriorities)
  with pr have "priorities_of b \<noteq> []" by simp
  then obtain registry ps where b: "b = IBalancerWithPriorities registry ps"
    by (cases b) simp_all
  with pr have ps: "ps = map priority_calculator (IBalancerWithEndpointStatuses hosts)"
    by (simp add: priorities_of_new_IBalancerWithPriorities)
  from wf b have d: "ids_dense registry" and len: "length ps = length registry"
    and mx: "size_t_max \<notin> set ps" by simp_all
  let ?on = "getRangeByStatus registry ONLINE"
  let ?un = "getRangeByStatus registry UNDEF"
  let ?cands = "if \<exists>i<length registry. status (registry ! i) = ONLINE
        then {i. i < length registry \<and> status (registry ! i) = ONLINE}
        else {i. i < length registry \<and> status (registry ! i) = UNDEF}"
  have on: "set ?on = {i. i < length registry \<and> status (registry ! i) = ONLINE}"
    and un: "set ?un = {i. i < length registry \<and> status (registry ! i) = UNDEF}"
    using d by (auto simp: set_getRangeByStatus)
  have on_ne: "(?on \<noteq> []) = (\<exists>i<length registry. status (registry ! i) = ONLINE)"
    using d by (simp add: getRangeByStatus_empty)
  note sel = Priorities_getHostToConnect_cases [OF d len mx]
  have get: "getHostToConnect rnd b =
      (fst (Priorities_getHostToConnect registry ps),
       IBalancerWithPriorities (snd (Priorities_getHostToConnect registry ps)) ps)"
    by (simp add: b split: prod.splits)
  have part1: "?cands \<noteq> {} \<longrightarrow>
        (\<exists>m\<in>?cands.
           (\<forall>j\<in>?cands. ps ! m \<le> ps ! j \<and> (ps ! j = ps ! m \<longrightarrow> m \<le> j)) \<and>
           (\<exists>fallback. getHostToConnect rnd b = (Inr (endpoint_info registry m fallback), b)))"
  proof (cases "?on = []")
    case False
    with on_ne have "\<exists>i<length registry. status (registry ! i) = ONLINE" by simp
    then have c: "?cands = set ?on" unfolding on by (rule if_P)
    from False sel obtain m where "m \<in> set ?on"
      "\<forall>j\<in>set ?on. ps ! m \<le> ps ! j \<and> (ps ! j = ps ! m \<longrightarrow> m \<le> j)"
      "Priorities_getHostToConnect registry ps =
         (Inr (endpoint_info registry m (ps ! m \<noteq> ps ! 0)), registry)"
      by auto
    then show ?thesis unfolding c get b by auto
  next
    case True
    with on_ne have "\<not> (\<exists>i<length registry. status (registry ! i) = ONLINE)" by simp
    then have c: "?cands = set ?un" unfolding un by (rule if_not_P)
    show ?thesis
    proof (cases "?un = []")
      case undef: True
      then show ?thesis unfolding c by simp
    next
      case False
      with True sel obtain m where "m \<in> set ?un"
        "\<forall>j\<in>set ?un. ps ! m \<le> ps ! j \<and> (ps ! j = ps ! m \<longrightarrow> m \<le> j)"
        "Priorities_getHostToConnect registry ps =
           (Inr (endpoint_info registry m (ps ! m \<noteq> ps ! 0)), registry)"
        by auto
      then show ?thesis unfolding c get b by auto
    qed
  qed
  have part2: "\<forall>x y info.
        x < length registry \<and> y < length registry \<and>
        status (registry ! x) = ONLINE \<and> status (registry ! y) = ONLINE \<and>
        ps ! x < ps ! y \<and> fst (getHostToConnect rnd b) = Inr info
        \<longrightarrow> EndpointInfo.id' info \<noteq> y"
  proof (intro allI impI)
    fix x y info
    assume h: "x < length registry \<and> y < length registry \<and>
        status (registry ! x) = ONLINE \<and> status (registry ! y) = ONLINE \<and>
        ps ! x < ps ! y \<and> fst (getHostToConnect rnd b) = Inr info"
    then have x: "x \<in> set ?on" by (simp add: on)
    then have "?on \<noteq> []" by auto
    with sel obtain m where m: "\<forall>j\<in>set ?on. ps ! m \<le> ps ! j"
      "Priorities_getHostToConnect registry ps =
         (Inr (endpoint_info registry m (ps ! m \<noteq> ps ! 0)), registry)"
      by auto
    from m(2) h have "EndpointInfo.id' info = m" unfolding get by auto
    moreover from m(1) x have "ps ! m \<le> ps ! x" by blast
    ultimately show "EndpointInfo.id' info \<noteq> y" using h by auto
  qed
  have "(ONLINE \<in> status ` set registry) =
        (\<exists>i<length registry. status (registry ! i) = ONLINE)"
  proof
    assume "ONLINE \<in> status ` set registry"
    then obtain e where "e \<in> set registry" "status e = ONLINE" by auto
    then show "\<exists>i<length registry. status (registry ! i) = ONLINE"
      by (metis in_set_conv_nth)
  next
    assume "\<exists>i<length registry. status (registry ! i) = ONLINE"
    then obtain i where i: "i < length registry" "status (registry ! i) = ONLINE" by blast
    then have "registry ! i \<in> set registry" by simp
    with i(2) show "ONLINE \<in> status ` set registry" by (metis image_eqI)
  qed
  then have cands: "candidates registry = ?cands"
    by (simp add: candidates_def) auto
  have "b = IBalancerWithPriorities (registry_of b) (priorities_of b)"
    and "priorities_of b = map priority_calculator (IBalancerWithEndpointStatuses hosts)"
    and "registry_of b = registry" and "priorities_of b = ps"
    using b ps by simp_all
  with part1 part2 cands show ?thesis by (simp only:)
qed

theorem Priorities_getHostToConnect_min_priority_witness:
  "\<exists>fallback.
     getHostToConnect 0
       (IBalancerWithPriorities
          [\<lparr>Endpoint.address = ''b'', secure = False, id' = 0, status = ONLINE\<rparr>,
           \<lparr>Endpoint.address = ''a'', secure = False, id' = 1, status = ONLINE\<rparr>,
           \<lparr>Endpoint.address = ''c'', secure = False, id' = 2, status = ONLINE\<rparr>] [5, 2, 2]) =
       (Inr (endpoint_info
          [\<lparr>Endpoint.address = ''b'', secure = False, id' = 0, status = ONLINE\<rparr>,
           \<lparr>Endpoint.address = ''a'', secure = False, id' = 1, status = ONLINE\<rparr>,
           \<lparr>Endpoint.address = ''c'', secure = False, id' = 2, status = ONLINE\<rparr>] 1 fallback),
        IBalancerWithPriorities
          [\<lparr>Endpoint.address = ''b'', secure = False, id' = 0, status = ONLINE\<rparr>,
           \<lparr>Endpoint.address = ''a'', secure = False, id' = 1, status = ONLINE\<rparr>,
           \<lparr>Endpoint.address = ''c'', secure = False, id' = 2, status = ONLINE\<rparr>] [5, 2, 2])"
proof -
  let ?calc = "\<lambda>e. if Endpoint.address e = ''b'' then 5 else (2 :: 64 word)"
  let ?reg = "[\<lparr>Endpoint.address = ''b'', secure = False, id' = 0, status = ONLINE\<rparr>,
           \<lparr>Endpoint.address = ''a'', secure = False, id' = 1, status = ONLINE\<rparr>,
           \<lparr>Endpoint.address = ''c'', secure = False, id' = 2, status = ONLINE\<rparr>]"
  let ?ps = "[5, 2, 2 :: 64 word]"
  let ?B = "IBalancerWithPriorities ?reg ?ps"
  have h1: "[''b'', ''a'', ''c''] \<noteq> []" by simp
  have h2: "size_t_max \<notin> set (priorities_of
      (new_IBalancerWithPriorities [''b'', ''a'', ''c''] ?calc))"
    by code_simp
  have h3: "apply_updates [MarkHostOnline 0, MarkHostOnline 1, MarkHostOnline 2]
      (new_IBalancerWithPriorities [''b'', ''a'', ''c''] ?calc) = Inr ?B"
    by code_simp
  have cands: "candidates ?reg = {0, 1, 2}" by code_simp
  note spec = Priorities_getHostToConnect_min_priority [OF h1 h2 h3, of 0]
  from spec have "candidates (registry_of ?B) \<noteq> {} \<longrightarrow>
        (\<exists>m\<in>candidates (registry_of ?B).
           (\<forall>j\<in>candidates (registry_of ?B).
              priorities_of ?B ! m \<le> priorities_of ?B ! j \<and>
              (priorities_of ?B ! j = priorities_of ?B ! m \<longrightarrow> m \<le> j)) \<and>
           (\<exists>fallback.
              getHostToConnect 0 ?B = (Inr (endpoint_info (registry_of ?B) m fallback), ?B)))"
    by (elim conjE)
  then have "{0, 1, 2 :: nat} \<noteq> {} \<longrightarrow>
        (\<exists>m\<in>{0, 1, 2}.
           (\<forall>j\<in>{0, 1, 2}. ?ps ! m \<le> ?ps ! j \<and> (?ps ! j = ?ps ! m \<longrightarrow> m \<le> j)) \<and>
           (\<exists>fallback. getHostToConnect 0 ?B = (Inr (endpoint_info ?reg m fallback), ?B)))"
    unfolding registry_of.simps priorities_of.simps cands .
  then obtain m where m: "m \<in> {0, 1, 2 :: nat}"
    and least: "\<forall>j\<in>{0, 1, 2}. ?ps ! m \<le> ?ps ! j \<and> (?ps ! j = ?ps ! m \<longrightarrow> m \<le> j)"
    and res: "\<exists>fallback. getHostToConnect 0 ?B = (Inr (endpoint_info ?reg m fallback), ?B)"
    by blast
  from least have l1: "?ps ! m \<le> ?ps ! 1" "?ps ! 1 = ?ps ! m \<longrightarrow> m \<le> 1" by blast+
  have "m \<noteq> 0"
  proof
    assume "m = 0"
    with l1(1) have "(5 :: 64 word) \<le> 2" by simp
    then show False by simp
  qed
  moreover have "m \<noteq> 2"
  proof
    assume "m = 2"
    with l1(2) have "(2 :: nat) \<le> 1" by simp
    then show False by simp
  qed
  ultimately have "m = 1" using m by blast
  with res show ?thesis by (simp only:)
qed

section \<open>The first-or-random policy (C7)\<close>

lemma apply_update_FirstOrRandom:
  assumes "apply_update u (FirstOrRandom registry) = Inr b'"
  shows "\<exists>r. b' = FirstOrRandom r"
proof (cases u)
  case (MarkHostOnline i)
  with assms show ?thesis
    by (auto simp: balancer_markHostOnline_def markHostOnline_def split: if_splits)
next
  case (MarkHostOffline i)
  with assms show ?thesis
    by (auto simp: balancer_markHostOffline_def markHostOffline_def split: if_splits)
next
  case ResetOfflineStatuses
  with assms show ?thesis by (auto simp: balancer_resetOfflineStatuses_def)
next
  case (GetHostToConnect rnd)
  with assms show ?thesis
    by (auto split: prod.splits sum.splits exception.splits)
qed

lemma apply_updates_FirstOrRandom:
  "apply_updates us (FirstOrRandom registry) = Inr b \<Longrightarrow> \<exists>r. b = FirstOrRandom r"
proof (induction us arbitrary: registry)
  case Nil
  then show ?case by auto
next
  case (Cons u us)
  from Cons.prems obtain b1 where u: "apply_update u (FirstOrRandom registry) = Inr b1"
    and us: "apply_updates us b1 = Inr b"
    by (auto split: sum.splits)
  from apply_update_FirstOrRandom [OF u] obtain r where "b1 = FirstOrRandom r" by blast
  with us Cons.IH show ?case by blast
qed

text \<open>
  C7, as the code has it: take a first-or-random balancer built from a non-empty host
  list, after any sequence of in-range updates. getRangeByStatus lists, in ascending
  order, the ids with the given status. When endpoint 0 is ONLINE, or is UNDEF while no
  endpoint is ONLINE, getHostToConnect returns endpoint 0 with
  use_fallback_session_lifetime = false. When endpoint 0 is not ONLINE and some endpoint
  is ONLINE, it returns the ONLINE endpoint at the drawn index
  (\<open>rnd mod\<close> the number of ONLINE endpoints) with use_fallback_session_lifetime = true.
  When endpoint 0 is OFFLINE, no endpoint is ONLINE and some endpoint is UNDEF, it
  returns the UNDEF endpoint at the drawn index with use_fallback_session_lifetime = true.
  The balancer is unchanged in all three cases.
\<close>

theorem FirstOrRandom_getHostToConnect_spec:
  assumes "hosts \<noteq> []"
    and "apply_updates us (getConnectionBalancer pd ld FIRST_OR_RANDOM hosts) = Inr b"
  shows "(\<forall>st. getRangeByStatus (registry_of b) st =
             filter (\<lambda>i. status (registry_of b ! i) = st) [0..<length (registry_of b)]) \<and>
     (status (registry_of b ! 0) = ONLINE \<or>
      status (registry_of b ! 0) = UNDEF \<and> getRangeByStatus (registry_of b) ONLINE = []
      \<longrightarrow> getHostToConnect rnd b = (Inr (endpoint_info (registry_of b) 0 False), b)) \<and>
     (status (registry_of b ! 0) \<noteq> ONLINE \<and> getRangeByStatus (registry_of b) ONLINE \<noteq> []
      \<longrightarrow> getHostToConnect rnd b =
            (Inr (endpoint_info (registry_of b)
                    (getRangeByStatus (registry_of b) ONLINE !
                       (rnd mod length (getRangeByStatus (registry_of b) ONLINE))) True), b)) \<and>
     (status (registry_of b ! 0) = OFFLINE \<and> getRangeByStatus (registry_of b) ONLINE = [] \<and>
      getRangeByStatus (registry_of b) UNDEF \<noteq> []
      \<longrightarrow> getHostToConnect rnd b =
            (Inr (endpoint_info (registry_of b)
                    (getRangeByStatus (registry_of b) UNDEF !
                       (rnd mod length (getRangeByStatus (registry_of b) UNDEF))) True), b))"
proof -
  have "size_t_max \<notin> set (priorities_of (getConnectionBalancer pd ld FIRST_OR_RANDOM hosts))"
    by simp
  from reachable_well_formed [OF assms(1) this assms(2)] have wf: "well_formed b" .
  from assms(2) have "apply_updates us (FirstOrRandom (IBalancerWithEndpointStatuses hosts)) = Inr b"
    by simp
  from apply_updates_FirstOrRandom [OF this] obtain registry where b: "b = FirstOrRandom registry"
    by blast
  from wf b have d: "ids_dense registry" and ne: "registry \<noteq> []" by simp_all
  have get: "getHostToConnect rnd b =
      (fst (FirstOrRandom_getHostToConnect rnd registry),
       FirstOrRandom (snd (FirstOrRandom_getHostToConnect rnd registry)))"
    by (simp add: b split: prod.splits)
  note eq = FirstOrRandom_getHostToConnect_eq [OF d ne, of rnd]
  have f1: "\<forall>st. getRangeByStatus registry st =
             filter (\<lambda>i. status (registry ! i) = st) [0..<length registry]"
    using d by (simp add: getRangeByStatus_dense)
  have f2: "status (registry ! 0) = ONLINE \<or>
      status (registry ! 0) = UNDEF \<and> getRangeByStatus registry ONLINE = []
      \<longrightarrow> getHostToConnect rnd b = (Inr (endpoint_info registry 0 False), b)"
    unfolding get eq by (auto simp: b)
  have f3: "status (registry ! 0) \<noteq> ONLINE \<and> getRangeByStatus registry ONLINE \<noteq> []
      \<longrightarrow> getHostToConnect rnd b =
            (Inr (endpoint_info registry
                    (getRangeByStatus registry ONLINE !
                       (rnd mod length (getRangeByStatus registry ONLINE))) True), b)"
    unfolding get eq by (auto simp: b)
  have f4: "status (registry ! 0) = OFFLINE \<and> getRangeByStatus registry ONLINE = [] \<and>
      getRangeByStatus registry UNDEF \<noteq> []
      \<longrightarrow> getHostToConnect rnd b =
            (Inr (endpoint_info registry
                    (getRangeByStatus registry UNDEF !
                       (rnd mod length (getRangeByStatus registry UNDEF))) True), b)"
    unfolding get eq by (auto simp: b)
  have reg: "registry_of b = registry" by (simp add: b)
  show ?thesis unfolding reg by (intro conjI f1 f2 f3 f4)
qed

theorem FirstOrRandom_getHostToConnect_spec_witness:
  "getHostToConnect 3 (FirstOrRandom
       [\<lparr>Endpoint.address = ''a'', secure = False, id' = 0, status = OFFLINE\<rparr>,
        \<lparr>Endpoint.address = ''b'', secure = False, id' = 1, status = ONLINE\<rparr>,
        \<lparr>Endpoint.address = ''c'', secure = False, id' = 2, status = ONLINE\<rparr>]) =
     (Inr (endpoint_info
       [\<lparr>Endpoint.address = ''a'', secure = False, id' = 0, status = OFFLINE\<rparr>,
        \<lparr>Endpoint.address = ''b'', secure = False, id' = 1, status = ONLINE\<rparr>,
        \<lparr>Endpoint.address = ''c'', secure = False, id' = 2, status = ONLINE\<rparr>] 2 True),
      FirstOrRandom
       [\<lparr>Endpoint.address = ''a'', secure = False, id' = 0, status = OFFLINE\<rparr>,
        \<lparr>Endpoint.address = ''b'', secure = False, id' = 1, status = ONLINE\<rparr>,
        \<lparr>Endpoint.address = ''c'', secure = False, id' = 2, status = ONLINE\<rparr>])"
proof -
  let ?reg = "[\<lparr>Endpoint.address = ''a'', secure = False, id' = 0, status = OFFLINE\<rparr>,
        \<lparr>Endpoint.address = ''b'', secure = False, id' = 1, status = ONLINE\<rparr>,
        \<lparr>Endpoint.address = ''c'', secure = False, id' = 2, status = ONLINE\<rparr>]"
  let ?B = "FirstOrRandom ?reg"
  have h1: "[''a'', ''b'', ''c''] \<noteq> []" by simp
  have h2: "apply_updates [MarkHostOffline 0, MarkHostOnline 1, MarkHostOnline 2]
      (getConnectionBalancer (\<lambda>a. 0) (\<lambda>a. 0) FIRST_OR_RANDOM [''a'', ''b'', ''c'']) = Inr ?B"
    by code_simp
  have pre: "status (registry_of ?B ! 0) \<noteq> ONLINE \<and> getRangeByStatus (registry_of ?B) ONLINE \<noteq> []"
    by code_simp
  have drawn: "getRangeByStatus ?reg ONLINE ! (3 mod length (getRangeByStatus ?reg ONLINE)) = 2"
    by code_simp
  have reg: "registry_of ?B = ?reg" by simp
  from FirstOrRandom_getHostToConnect_spec [OF h1 h2, of 3]
  have "status (registry_of ?B ! 0) \<noteq> ONLINE \<and> getRangeByStatus (registry_of ?B) ONLINE \<noteq> []
      \<longrightarrow> getHostToConnect 3 ?B =
            (Inr (endpoint_info (registry_of ?B)
                    (getRangeByStatus (registry_of ?B) ONLINE !
                       (3 mod length (getRangeByStatus (registry_of ?B) ONLINE))) True), ?B)"
    by (elim conjE)
  from this [THEN mp, OF pre] show ?thesis unfolding reg drawn .
qed

text \<open>
  C7 as stated fails: with hosts a and b, after markHostOnline(1) endpoint 0 is UNDEF,
  yet getHostToConnect returns endpoint 1 with use_fallback_session_lifetime = true, not
  endpoint 0.
\<close>

theorem FirstOrRandom_undef_first_counterexample:
  "apply_updates [MarkHostOnline 1]
     (getConnectionBalancer (\<lambda>a. 0) (\<lambda>a. 0) FIRST_OR_RANDOM [''a'', ''b'']) =
   Inr (FirstOrRandom
       [\<lparr>Endpoint.address = ''a'', secure = False, id' = 0, status = UNDEF\<rparr>,
        \<lparr>Endpoint.address = ''b'', secure = False, id' = 1, status = ONLINE\<rparr>]) \<and>
   getHostToConnect 0 (FirstOrRandom
       [\<lparr>Endpoint.address = ''a'', secure = False, id' = 0, status = UNDEF\<rparr>,
        \<lparr>Endpoint.address = ''b'', secure = False, id' = 1, status = ONLINE\<rparr>]) =
     (Inr \<lparr>EndpointInfo.address = ''b'', secure = False, id' = 1,
          settings = \<lparr>use_fallback_session_lifetime = True\<rparr>\<rparr>,
      FirstOrRandom
       [\<lparr>Endpoint.address = ''a'', secure = False, id' = 0, status = UNDEF\<rparr>,
        \<lparr>Endpoint.address = ''b'', secure = False, id' = 1, status = ONLINE\<rparr>])"
  by code_simp



section \<open>The round-robin policy (C5)\<close>

lemma set_status_same:
  "status e = s \<Longrightarrow> e\<lparr>status := s\<rparr> = e"
  by (cases e) auto

lemma markHostOnline_online:
  assumes "i < length registry" "status (registry ! i) = ONLINE"
  shows "balancer_markHostOnline i (RoundRobin registry c) = Inr (RoundRobin registry c)"
  using assms
  by (simp add: balancer_markHostOnline_def markHostOnline_def set_status_same)

lemma RoundRobin_all_online_step:
  assumes "ids_dense registry" "c < length registry" "\<forall>e\<in>set registry. status e = ONLINE"
  shows "getHostToConnect rnd (RoundRobin registry c) =
           (Inr (endpoint_info registry c False),
            RoundRobin registry ((c + 1) mod length registry))"
proof -
  from assms(2,3) have "status (registry ! c) = ONLINE" by simp
  with RoundRobin_getHostToConnect_eq [OF assms(1,2)] show ?thesis by simp
qed

lemma RoundRobin_all_online:
  assumes "ids_dense registry" "\<forall>e\<in>set registry. status e = ONLINE"
  shows "c < length registry \<Longrightarrow>
         select_and_mark_online n (RoundRobin registry c) =
           Inr (map (\<lambda>k. (c + k) mod length registry) [0..<n])"
proof (induction n arbitrary: c)
  case 0
  then show ?case by simp
next
  case (Suc n)
  let ?N = "length registry"
  let ?c' = "(c + 1) mod ?N"
  from Suc.prems have "0 < ?N" by auto
  then have c': "?c' < ?N" by (rule mod_less_divisor)
  from Suc.prems assms(2) have on: "status (registry ! c) = ONLINE" by simp
  have step: "getHostToConnect 0 (RoundRobin registry c) =
      (Inr (endpoint_info registry c False), RoundRobin registry ?c')"
    using RoundRobin_all_online_step [OF assms(1) Suc.prems assms(2)] .
  have mark: "balancer_markHostOnline c (RoundRobin registry ?c') = Inr (RoundRobin registry ?c')"
    using markHostOnline_online [OF Suc.prems on] .
  have rest: "select_and_mark_online n (RoundRobin registry ?c') =
      Inr (map (\<lambda>k. (?c' + k) mod ?N) [0..<n])"
    using Suc.IH [OF c'] .
  have shift: "map (\<lambda>k. (?c' + k) mod ?N) [0..<n] = map (\<lambda>k. (c + Suc k) mod ?N) [0..<n]"
    by (simp add: mod_add_left_eq)
  have "select_and_mark_online (Suc n) (RoundRobin registry c) =
      Inr (c # map (\<lambda>k. (c + Suc k) mod ?N) [0..<n])"
    using step mark rest shift by (simp del: getHostToConnect.simps)
  also have "c # map (\<lambda>k. (c + Suc k) mod ?N) [0..<n] = map (\<lambda>k. (c + k) mod ?N) [0..<Suc n]"
    using Suc.prems by (simp add: map_upt_Suc del: upt_Suc)
  finally show ?case .
qed

lemma first_online_is_0:
  assumes "ids_dense registry" "registry \<noteq> []" "status (registry ! 0) = ONLINE"
  shows "getRangeByStatus registry ONLINE \<noteq> []" "getRangeByStatus registry ONLINE ! 0 = 0"
proof -
  from assms(2) have "[0..<length registry] = 0 # [1..<length registry]"
    by (simp add: upt_rec)
  with assms(3) have "getRangeByStatus registry ONLINE =
      0 # filter (\<lambda>i. status (registry ! i) = ONLINE) [1..<length registry]"
    by (simp add: getRangeByStatus_dense [OF assms(1)])
  then show "getRangeByStatus registry ONLINE \<noteq> []" "getRangeByStatus registry ONLINE ! 0 = 0"
    by simp_all
qed

lemma RoundRobin_only_0_online_step:
  assumes "ids_dense registry" "c < length registry" "status (registry ! 0) = ONLINE"
    and "c = 0 \<or> status (registry ! c) \<noteq> ONLINE"
  shows "getHostToConnect rnd (RoundRobin registry c) =
           (Inr (endpoint_info registry 0 False), RoundRobin registry (1 mod length registry))"
proof -
  from assms(2) have ne: "registry \<noteq> []" by auto
  note first = first_online_is_0 [OF assms(1) ne assms(3)]
  show ?thesis
  proof (cases "status (registry ! c) = ONLINE")
    case True
    with assms(4) have "c = 0" by simp
    with True RoundRobin_getHostToConnect_eq [OF assms(1,2)] show ?thesis by simp
  next
    case False
    with first RoundRobin_getHostToConnect_eq [OF assms(1,2)] show ?thesis by simp
  qed
qed

lemma RoundRobin_only_0_online:
  assumes "ids_dense registry" "status (registry ! 0) = ONLINE"
    and "\<forall>i<length registry. 0 < i \<longrightarrow> status (registry ! i) \<noteq> ONLINE"
  shows "c < length registry \<Longrightarrow>
         select_and_mark_online n (RoundRobin registry c) = Inr (replicate n 0)"
proof (induction n arbitrary: c)
  case 0
  then show ?case by simp
next
  case (Suc n)
  let ?N = "length registry"
  from Suc.prems have pos: "0 < ?N" by auto
  then have c': "1 mod ?N < ?N" by (rule mod_less_divisor)
  from Suc.prems assms(3) have "c = 0 \<or> status (registry ! c) \<noteq> ONLINE" by auto
  from RoundRobin_only_0_online_step [OF assms(1) Suc.prems assms(2) this]
  have step: "getHostToConnect 0 (RoundRobin registry c) =
      (Inr (endpoint_info registry 0 False), RoundRobin registry (1 mod ?N))" .
  have mark: "balancer_markHostOnline 0 (RoundRobin registry (1 mod ?N)) =
      Inr (RoundRobin registry (1 mod ?N))"
    using markHostOnline_online [OF pos assms(2)] .
  from step mark Suc.IH [OF c'] show ?case
    by (simp del: getHostToConnect.simps)
qed

lemma status_IBalancerWithEndpointStatuses:
  "i < length hosts \<Longrightarrow> status (IBalancerWithEndpointStatuses hosts ! i) = UNDEF"
  by (simp add: IBalancerWithEndpointStatuses_map)

lemma RoundRobin_from_all_undef:
  assumes "hosts \<noteq> []"
  shows "select_and_mark_online n (RoundRobin (IBalancerWithEndpointStatuses hosts) 0) =
           Inr (replicate n 0)"
proof (cases n)
  case 0
  then show ?thesis by simp
next
  case (Suc k)
  let ?reg = "IBalancerWithEndpointStatuses hosts"
  let ?reg1 = "?reg[0 := (?reg ! 0)\<lparr>status := ONLINE\<rparr>]"
  from assms have pos: "0 < length ?reg" by simp
  have d: "ids_dense ?reg" by (rule ids_dense_IBalancerWithEndpointStatuses)
  have undef: "\<And>i. i < length ?reg \<Longrightarrow> status (?reg ! i) = UNDEF"
    by (simp add: status_IBalancerWithEndpointStatuses)
  then have "\<forall>e\<in>set ?reg. status e \<noteq> ONLINE"
    by (auto simp: in_set_conv_nth)
  then have no_online: "getRangeByStatus ?reg ONLINE = []"
    by (simp add: getRangeByStatus_Nil)
  from undef pos have u0: "status (?reg ! 0) = UNDEF" by blast
  from RoundRobin_getHostToConnect_eq [OF d pos] u0 no_online
  have step: "getHostToConnect 0 (RoundRobin ?reg 0) =
      (Inr (endpoint_info ?reg 0 False), RoundRobin ?reg 0)"
    by simp
  from pos have mark: "balancer_markHostOnline 0 (RoundRobin ?reg 0) = Inr (RoundRobin ?reg1 0)"
    by (simp add: balancer_markHostOnline_def markHostOnline_def)
  have d1: "ids_dense ?reg1" using d pos by (rule ids_dense_update)
  have on1: "status (?reg1 ! 0) = ONLINE" using pos by simp
  have rest1: "\<forall>i<length ?reg1. 0 < i \<longrightarrow> status (?reg1 ! i) \<noteq> ONLINE"
    using undef by simp
  from pos have pos1: "0 < length ?reg1" by simp
  from RoundRobin_only_0_online [OF d1 on1 rest1 pos1, of k]
  have "select_and_mark_online k (RoundRobin ?reg1 0) = Inr (replicate k 0)" .
  with step mark Suc show ?thesis
    by (simp del: getHostToConnect.simps)
qed

text \<open>
  C5, as the code has it: take a round-robin balancer built from a non-empty host list
  and updated, in which every endpoint is ONLINE and the cursor is \<open>c\<close>. Then
  \<open>n\<close> rounds of getHostToConnect followed by markHostOnline(result.id) select the
  ids \<open>c, c + 1, \<dots>\<close> modulo the number of endpoints: from cursor 0 the cyclic
  order 0, 1, 2, \<dots>, N - 1, 0, \<dots>
\<close>

theorem RoundRobin_select_and_mark_online:
  assumes "hosts \<noteq> []"
    and "apply_updates us (getConnectionBalancer pd ld ROUND_ROBIN hosts) =
           Inr (RoundRobin registry c)"
    and "\<forall>e\<in>set registry. status e = ONLINE"
  shows "select_and_mark_online n (RoundRobin registry c) =
           Inr (map (\<lambda>k. (c + k) mod length registry) [0..<n])"
proof -
  have "size_t_max \<notin> set (priorities_of (getConnectionBalancer pd ld ROUND_ROBIN hosts))"
    by simp
  from reachable_well_formed [OF assms(1) this assms(2)]
  have "ids_dense registry" "c < length registry" by simp_all
  with assms(3) show ?thesis by (simp add: RoundRobin_all_online)
qed

theorem RoundRobin_select_and_mark_online_witness:
  "select_and_mark_online 5
     (RoundRobin
        [\<lparr>Endpoint.address = ''a'', secure = False, id' = 0, status = ONLINE\<rparr>,
         \<lparr>Endpoint.address = ''b'', secure = False, id' = 1, status = ONLINE\<rparr>,
         \<lparr>Endpoint.address = ''c'', secure = False, id' = 2, status = ONLINE\<rparr>] 0) =
     Inr [0, 1, 2, 0, 1]"
proof -
  let ?reg = "[\<lparr>Endpoint.address = ''a'', secure = False, id' = 0, status = ONLINE\<rparr>,
         \<lparr>Endpoint.address = ''b'', secure = False, id' = 1, status = ONLINE\<rparr>,
         \<lparr>Endpoint.address = ''c'', secure = False, id' = 2, status = ONLINE\<rparr>]"
  have h1: "[''a'', ''b'', ''c''] \<noteq> []" by simp
  have h2: "apply_updates [MarkHostOnline 0, MarkHostOnline 1, MarkHostOnline 2]
       (getConnectionBalancer (\<lambda>a. 0) (\<lambda>a. 0) ROUND_ROBIN [''a'', ''b'', ''c'']) =
       Inr (RoundRobin ?reg 0)"
    by code_simp
  have h3: "\<forall>e\<in>set ?reg. status e = ONLINE" by simp
  have m: "map (\<lambda>k. (0 + k) mod length ?reg) [0..<5] = [0, 1, 2, 0, 1]" by code_simp
  from RoundRobin_select_and_mark_online [OF h1 h2 h3, of 5]
  show ?thesis unfolding m .
qed

text \<open>
  C5 as stated fails: with hosts a, b, c all UNDEF, four rounds of getHostToConnect
  followed by markHostOnline(result.id) select the ids 0, 0, 0, 0, not 0, 1, 2, 0. The
  lemma \<open>RoundRobin_from_all_undef\<close> shows the same for every host list and every
  number of rounds.
\<close>

theorem RoundRobin_not_cyclic_counterexample:
  "select_and_mark_online 4
     (getConnectionBalancer (\<lambda>a. 0) (\<lambda>a. 0) ROUND_ROBIN [''a'', ''b'', ''c'']) =
     Inr [0, 0, 0, 0] \<and>
   select_and_mark_online 4
     (getConnectionBalancer (\<lambda>a. 0) (\<lambda>a. 0) ROUND_ROBIN [''a'', ''b'', ''c'']) \<noteq>
     Inr [0, 1, 2, 0]"
  by code_simp

section \<open>Where the code departs from its description\<close>

text \<open>
  C2: the session-lifetime hint compares with the priority of endpoint 0, not with the
  minimum priority. Hosts b and a, Levenshtein distances to the local host name a: the
  priorities are 1 and 0. With both endpoints UNDEF getHostToConnect returns endpoint 1,
  whose priority 0 is the minimum, with use_fallback_session_lifetime = true; after
  markHostOffline(1) it returns endpoint 0, whose priority 1 is not the minimum, with
  use_fallback_session_lifetime = false.
\<close>

theorem isOptimalEndpoint_compares_with_endpoint_0:
  "priorities_of
     (getConnectionBalancer (\<lambda>a. 0) (\<lambda>a. if a = ''a'' then 0 else 1)
        HOSTNAME_LEVENSHTEIN_DISTANCE [''b'', ''a'']) = [1, 0] \<and>
   fst (getHostToConnect 0
     (getConnectionBalancer (\<lambda>a. 0) (\<lambda>a. if a = ''a'' then 0 else 1)
        HOSTNAME_LEVENSHTEIN_DISTANCE [''b'', ''a''])) =
     Inr \<lparr>EndpointInfo.address = ''a'', secure = False, id' = 1,
          settings = \<lparr>use_fallback_session_lifetime = True\<rparr>\<rparr> \<and>
   apply_updates [MarkHostOffline 1]
     (getConnectionBalancer (\<lambda>a. 0) (\<lambda>a. if a = ''a'' then 0 else 1)
        HOSTNAME_LEVENSHTEIN_DISTANCE [''b'', ''a'']) =
     Inr (IBalancerWithPriorities
       [\<lparr>Endpoint.address = ''b'', secure = False, id' = 0, status = UNDEF\<rparr>,
        \<lparr>Endpoint.address = ''a'', secure = False, id' = 1, status = OFFLINE\<rparr>] [1, 0]) \<and>
   fst (getHostToConnect 0 (IBalancerWithPriorities
       [\<lparr>Endpoint.address = ''b'', secure = False, id' = 0, status = UNDEF\<rparr>,
        \<lparr>Endpoint.address = ''a'', secure = False, id' = 1, status = OFFLINE\<rparr>] [1, 0])) =
     Inr \<lparr>EndpointInfo.address = ''b'', secure = False, id' = 0,
          settings = \<lparr>use_fallback_session_lifetime = False\<rparr>\<rparr>"
  by code_simp

text \<open>
  C3: with a current id given, endpointsWorthChecking does not filter by priority. Hosts
  a, b, c in order (priorities 0, 1, 2), all UNDEF, current id 0: no endpoint has a
  priority below that of endpoint 0, yet all three endpoints are returned.
\<close>

theorem endpointsWorthChecking_with_current_returns_all:
  "endpointsWorthChecking
     (getConnectionBalancer (\<lambda>a. 0) (\<lambda>a. 0) IN_ORDER [''a'', ''b'', ''c'']) (Some 0) =
   Inr [\<lparr>EndpointInfo.address = ''a'', secure = False, id' = 0,
          settings = \<lparr>use_fallback_session_lifetime = False\<rparr>\<rparr>,
        \<lparr>EndpointInfo.address = ''b'', secure = False, id' = 1,
          settings = \<lparr>use_fallback_session_lifetime = True\<rparr>\<rparr>,
        \<lparr>EndpointInfo.address = ''c'', secure = False, id' = 2,
          settings = \<lparr>use_fallback_session_lifetime = True\<rparr>\<rparr>]"
  by code_simp

text \<open>
  C9: with no current id, endpointsWorthChecking reads \<open>priorities[N]\<close>. Hosts a, b,
  c in order, all UNDEF, no current id: the first pass of the loop reads the priority
  vector of length 3 at index 3.
\<close>

theorem endpointsWorthChecking_without_current_out_of_bounds:
  "endpointsWorthChecking
     (getConnectionBalancer (\<lambda>a. 0) (\<lambda>a. 0) IN_ORDER [''a'', ''b'', ''c'']) None =
   Inl OUT_OF_BOUNDS"
  by code_simp

text \<open>
  C4: createClient lets ALL_CONNECTION_TRIES_FAILED escape. One host a. If its name
  meets a transient DNS error, or its session cannot be built, the first pass marks it
  offline and the second call of getHostToConnect throws ALL_CONNECTION_TRIES_FAILED,
  which is what createClient throws: neither of the two ZCONNECTIONLOSS exceptions of
  throwWhenNoHostAvailable.
\<close>

theorem createClient_lets_ALL_CONNECTION_TRIES_FAILED_escape:
  "fst (createClient
     [\<lparr>draw = 0, dns = DNSException, session_ok = False\<rparr>,
      \<lparr>draw = 0, dns = Resolved, session_ok = True\<rparr>]
     (getConnectionBalancer (\<lambda>a. 0) (\<lambda>a. 0) IN_ORDER [''a''])) =
     Some (Inl ALL_CONNECTION_TRIES_FAILED) \<and>
   fst (createClient
     [\<lparr>draw = 0, dns = Resolved, session_ok = False\<rparr>,
      \<lparr>draw = 0, dns = Resolved, session_ok = True\<rparr>]
     (getConnectionBalancer (\<lambda>a. 0) (\<lambda>a. 0) IN_ORDER [''a''])) =
     Some (Inl ALL_CONNECTION_TRIES_FAILED) \<and>
   ALL_CONNECTION_TRIES_FAILED \<noteq> throwWhenNoHostAvailable True \<and>
   ALL_CONNECTION_TRIES_FAILED \<noteq> throwWhenNoHostAvailable False"
  by code_simp

end
